theory Spec2Isabelle
  imports Complex_Main "HOL-Library.Multiset" "HOL-Library.Product_Lexorder" "HOL-Library.AList"
    "HOL-Library.Sublist"
begin

section \<open>Intraday report: bars, summaries and the provider chain\<close>

text \<open>
  Source: \<^verbatim>\<open>scripts/a_share_intraday_report_v2.py\<close>.

  Python floats are modelled as \<^typ>\<open>real\<close>: comparisons and truthiness (\<open>x \<noteq> 0\<close>) are
  exact, sums and quotients are the exact ones (no rounding, no NaN, no infinities, no
  negative zero). A \<open>datetime\<close> without microseconds is the tuple
  (year, month, day, hour, minute, second), ordered lexicographically as Python orders
  naive datetimes.
\<close>

type_synonym datetime = "nat \<times> nat \<times> nat \<times> nat \<times> nat \<times> nat"

text \<open>\<^verbatim>\<open>@dataclass class Bar\<close>: dt, open, high, low, close, volume, amount.\<close>

record Bar =
  b_dt :: datetime
  b_open :: real
  b_high :: real
  b_low :: real
  b_close :: real
  b_volume :: real
  b_amount :: real

text \<open>\<^verbatim>\<open>@dataclass class Ohlc\<close>: open, high, low, close, vol, amt.\<close>

record Ohlc =
  o_open :: real
  o_high :: real
  o_low :: real
  o_close :: real
  o_vol :: real
  o_amt :: real

text \<open>Exceptions of the Python runtime that the modelled code can meet.\<close>

datatype exn =
    AttributeError
  | TypeError
  | ValueError
  | ZeroDivisionError
  | RequestError
  | OSError
  | RuntimeError string "exn option"

text \<open>
  Python division: \<^verbatim>\<open>a / b\<close> raises on a zero divisor (HOL's \<open>a / 0 = 0\<close> would hide it).
\<close>

definition py_div :: "real \<Rightarrow> real \<Rightarrow> exn + real" where
  "py_div a b = (if b = 0 then Inl ZeroDivisionError else Inr (a / b))"

text \<open>
  \<^verbatim>\<open>Ohlc.vwap\<close>: \<^verbatim>\<open>(self.amt / self.vol) if self.vol else None\<close>. The guard is the
  truthiness of \<open>vol\<close>, that is \<open>vol \<noteq> 0\<close>.
\<close>

definition vwap :: "Ohlc \<Rightarrow> exn + real option" where
  "vwap s = (if o_vol s \<noteq> 0
             then (case py_div (o_amt s) (o_vol s) of Inl e \<Rightarrow> Inl e | Inr v \<Rightarrow> Inr (Some v))
             else Inr None)"

text \<open>
  Python's \<^verbatim>\<open>max(iterable)\<close> and \<^verbatim>\<open>min(iterable)\<close> on a non-empty sequence: keep the
  first element and replace it by each later one that is strictly larger (smaller).
\<close>

definition py_max :: "real \<Rightarrow> real list \<Rightarrow> real" where
  "py_max x xs = fold (\<lambda>y m. if m < y then y else m) xs x"

definition py_min :: "real \<Rightarrow> real list \<Rightarrow> real" where
  "py_min x xs = fold (\<lambda>y m. if y < m then y else m) xs x"

text \<open>
  \<^verbatim>\<open>sum(iterable)\<close>: start at 0 and add from the left. The additions are exact here,
  while a sum of floats rounds at each step and so depends on the order of its terms:
  no property below compares the sums of two different orders of the same bars.
\<close>

definition py_sum :: "real list \<Rightarrow> real" where
  "py_sum xs = foldl (+) 0 xs"

text \<open>
  \<^verbatim>\<open>summarize_ohlc(bars)\<close>, lines 134-143. There is no sort in it: \<open>bars[0]\<close> and
  \<open>bars[-1]\<close> are the first and the last bar of the list as given.
\<close>

fun summarize_ohlc :: "Bar list \<Rightarrow> Ohlc option" where
  "summarize_ohlc [] = None"
| "summarize_ohlc (b # bs) =
     Some \<lparr> o_open = b_open b,
            o_high = py_max (b_high b) (map b_high bs),
            o_low = py_min (b_low b) (map b_low bs),
            o_close = b_close (last (b # bs)),
            o_vol = py_sum (map b_volume (b # bs)),
            o_amt = py_sum (map b_amount (b # bs)) \<rparr>"

text \<open>
  Both providers end \<^verbatim>\<open>kline\<close> with \<^verbatim>\<open>out.sort(key=lambda b: b.dt)\<close>, a stable sort by
  timestamp.
\<close>

definition sort_bars :: "Bar list \<Rightarrow> Bar list" where
  "sort_bars bars = sort_key b_dt bars"

text \<open>
  \<^verbatim>\<open>ProviderChain.kline\<close>, lines 342-351. A provider is called at most once per chain
  call, so a provider is its name together with what its \<^verbatim>\<open>kline\<close> call does: raise an
  exception or return a list of bars. The loop carries \<open>last_err\<close>; the result also lists
  the names of the providers that were called, in order.
\<close>

record Provider =
  p_name :: string
  p_kline :: "exn + Bar list"

fun kline_loop :: "exn option \<Rightarrow> Provider list \<Rightarrow> (exn + Bar list) \<times> string list" where
  "kline_loop last_err [] =
     (Inl (RuntimeError ''All providers failed for kline'' last_err), [])"
| "kline_loop last_err (p # ps) =
     (case p_kline p of
        Inr bars \<Rightarrow>
          if bars \<noteq> [] then (Inr bars, [p_name p])
          else (case kline_loop last_err ps of (r, called) \<Rightarrow> (r, p_name p # called))
      | Inl e \<Rightarrow>
          (case kline_loop (Some e) ps of (r, called) \<Rightarrow> (r, p_name p # called)))"

definition chain_kline :: "Provider list \<Rightarrow> (exn + Bar list) \<times> string list" where
  "chain_kline providers = kline_loop None providers"

section \<open>Price alerts: values, builtins and helpers\<close>

text \<open>
  Source: \<^verbatim>\<open>scripts/a_share_price_alerts.py\<close>.

  What \<^verbatim>\<open>json.loads\<close> returns: \<open>None\<close>, a bool, a number, a string, a list or a dict.
  A dict is an association list in insertion order; a key is looked up with
  \<^const>\<open>map_of\<close> and stored with \<^const>\<open>AList.update\<close> (in place when present, appended
  when new, as Python does).
\<close>

datatype json =
    JNull
  | JBool bool
  | JNum real
  | JStr string
  | JArr "json list"
  | JObj "(string \<times> json) list"

text \<open>Truthiness, as \<^verbatim>\<open>if x:\<close>, \<^verbatim>\<open>not x\<close> and \<^verbatim>\<open>bool(x)\<close> test it.\<close>

fun truthy :: "json \<Rightarrow> bool" where
  "truthy JNull = False"
| "truthy (JBool b) = b"
| "truthy (JNum x) = (x \<noteq> 0)"
| "truthy (JStr s) = (s \<noteq> [])"
| "truthy (JArr xs) = (xs \<noteq> [])"
| "truthy (JObj kvs) = (kvs \<noteq> [])"

text \<open>
  \<^verbatim>\<open>d.get(k, default)\<close>: only a dict has the method; on any other value the call raises
  \<open>AttributeError\<close>.
\<close>

definition dict_get :: "json \<Rightarrow> string \<Rightarrow> json \<Rightarrow> exn + json" where
  "dict_get d k dflt =
     (case d of
        JObj kvs \<Rightarrow> Inr (case map_of kvs k of Some v \<Rightarrow> v | None \<Rightarrow> dflt)
      | _ \<Rightarrow> Inl AttributeError)"

text \<open>
  Builtins of Python whose full behaviour is not part of this repository are parameters
  of the model: \<^verbatim>\<open>float(s)\<close> on a string (\<open>None\<close> when it raises \<open>ValueError\<close>) and
  \<^verbatim>\<open>str(x)\<close> on a value that is not a string.
\<close>

record builtins =
  float_of_str :: "string \<Rightarrow> real option"
  str_of :: "json \<Rightarrow> string"

definition py_float :: "builtins \<Rightarrow> json \<Rightarrow> exn + real" where
  "py_float B x =
     (case x of
        JNum r \<Rightarrow> Inr r
      | JBool b \<Rightarrow> Inr (if b then 1 else 0)
      | JStr s \<Rightarrow> (case float_of_str B s of Some r \<Rightarrow> Inr r | None \<Rightarrow> Inl ValueError)
      | _ \<Rightarrow> Inl TypeError)"

definition py_str :: "builtins \<Rightarrow> json \<Rightarrow> string" where
  "py_str B x = (case x of JStr s \<Rightarrow> s | _ \<Rightarrow> str_of B x)"

text \<open>\<^verbatim>\<open>to_num(x)\<close>, lines 106-110: \<^verbatim>\<open>float(x)\<close>, and 0.0 when that raises.\<close>

definition to_num :: "builtins \<Rightarrow> json \<Rightarrow> real" where
  "to_num B x = (case py_float B x of Inr r \<Rightarrow> r | Inl e \<Rightarrow> 0)"

text \<open>
  \<^verbatim>\<open>f"{x:.2f}"\<close>: the value rounded to hundredths (ties to even, on the exact value),
  printed with a sign, the integer digits, a point and two decimals.
\<close>

definition round_half_even :: "real \<Rightarrow> int" where
  "round_half_even x =
     (let n = \<lfloor>x\<rfloor>; d = x - of_int n
      in if d < 1 / 2 then n else if 1 / 2 < d then n + 1 else if even n then n else n + 1)"

definition digit :: "nat \<Rightarrow> char" where
  "digit d = ''0123456789'' ! d"

fun show_nat :: "nat \<Rightarrow> string" where
  "show_nat n = (if n < 10 then [digit n] else show_nat (n div 10) @ [digit (n mod 10)])"

declare show_nat.simps [simp del]

definition fmt_2f :: "real \<Rightarrow> string" where
  "fmt_2f x =
     (let n = nat (round_half_even (\<bar>x\<bar> * 100))
      in (if x < 0 then ''-'' else []) @ show_nat (n div 100) @ ''.''
         @ [digit (n mod 100 div 10), digit (n mod 10)])"

text \<open>\<^verbatim>\<open>s.split(',')\<close> and \<^verbatim>\<open>s.strip()\<close> (ASCII whitespace).\<close>

fun split_on :: "char \<Rightarrow> string \<Rightarrow> string list" where
  "split_on c [] = [[]]"
| "split_on c (x # xs) =
     (if x = c then [] # split_on c xs
      else (case split_on c xs of t # ts \<Rightarrow> (x # t) # ts | [] \<Rightarrow> [[x]]))"

definition py_space :: "char \<Rightarrow> bool" where
  "py_space c \<longleftrightarrow>
     c \<in> set [CHR '' '', CHR 0x09, CHR 0x0A, CHR 0x0B, CHR 0x0C, CHR 0x0D,
              CHR 0x1C, CHR 0x1D, CHR 0x1E, CHR 0x1F]"

definition strip :: "string \<Rightarrow> string" where
  "strip s = rev (dropWhile py_space (rev (dropWhile py_space s)))"

text \<open>\<^verbatim>\<open>@dataclass class Quote\<close> of the alert script (date and time are strings).\<close>

record Quote =
  q_name :: string
  q_open :: real
  q_preclose :: real
  q_price :: real
  q_high :: real
  q_low :: real
  q_volume :: real
  q_amount :: real
  q_date :: string
  q_time :: string

text \<open>
  \<^verbatim>\<open>compute_vwap(symbol, yyyy_mm_dd)\<close>, lines 113-123. Its first argument here is what
  \<^verbatim>\<open>fetch_sina_kline\<close> did: raise, or return the rows.
\<close>

fun filter_rows :: "builtins \<Rightarrow> string \<Rightarrow> json list \<Rightarrow> exn + json list" where
  "filter_rows B day [] = Inr []"
| "filter_rows B day (r # rs) =
     (case dict_get r ''day'' (JStr []) of
        Inl e \<Rightarrow> Inl e
      | Inr d \<Rightarrow>
          (case filter_rows B day rs of
             Inl e \<Rightarrow> Inl e
           | Inr out \<Rightarrow> Inr (if prefix day (py_str B d) then r # out else out)))"

fun get_all :: "string \<Rightarrow> json list \<Rightarrow> exn + json list" where
  "get_all k [] = Inr []"
| "get_all k (r # rs) =
     (case dict_get r k JNull of
        Inl e \<Rightarrow> Inl e
      | Inr v \<Rightarrow> (case get_all k rs of Inl e \<Rightarrow> Inl e | Inr vs \<Rightarrow> Inr (v # vs)))"

definition compute_vwap :: "builtins \<Rightarrow> exn + json list \<Rightarrow> string \<Rightarrow> exn + real option" where
  "compute_vwap B kline yyyy_mm_dd =
     (case kline of
        Inl e \<Rightarrow> Inl e
      | Inr rows0 \<Rightarrow>
          (case filter_rows B yyyy_mm_dd rows0 of
             Inl e \<Rightarrow> Inl e
           | Inr rows \<Rightarrow>
               if rows = [] then Inr None
               else (case get_all ''volume'' rows of
                       Inl e \<Rightarrow> Inl e
                     | Inr vols \<Rightarrow>
                         (case get_all ''amount'' rows of
                            Inl e \<Rightarrow> Inl e
                          | Inr amts \<Rightarrow>
                              (let vol = py_sum (map (to_num B) vols);
                                   amt = py_sum (map (to_num B) amts)
                               in if vol = 0 then Inr None
                                  else (case py_div amt vol of
                                          Inl e \<Rightarrow> Inl e
                                        | Inr v \<Rightarrow> Inr (Some v)))))))"

text \<open>
  \<^verbatim>\<open>is_trading_time(now)\<close>, lines 126-135. \<open>now.weekday()\<close> is 0 for Monday to 6 for
  Sunday; \<open>now.time()\<close> is (hour, minute, second, microsecond), compared
  lexicographically.
\<close>

type_synonym pytime = "nat \<times> nat \<times> nat \<times> nat"

definition is_trading_time :: "nat \<Rightarrow> pytime \<Rightarrow> bool" where
  "is_trading_time weekday t =
     (if weekday \<ge> 5 then False
      else if (9, 30, 0, 0) \<le> t \<and> t \<le> (11, 30, 0, 0) then True
      else if (13, 0, 0, 0) \<le> t \<and> t \<le> (15, 0, 0, 0) then True
      else False)"

text \<open>\<^verbatim>\<open>pct(a, b)\<close>, lines 138-141.\<close>

definition pct :: "real \<Rightarrow> real \<Rightarrow> real" where
  "pct a b = (if b = 0 then 0 else (a / b - 1) * 100)"

section \<open>Price alerts: the world outside the process\<close>

text \<open>
  A file holds text that \<^verbatim>\<open>json.loads\<close> either rejects or turns into a value;
  \<^verbatim>\<open>json.loads(json.dumps(v))\<close> is taken to be \<open>v\<close>, and writing a file is taken to
  succeed. The world is the file system and the trace of what the process did to the
  outside, oldest event first.
\<close>

datatype content = Unparsable | Doc json

text \<open>
  The text of an alert is a fixed template filled with these values; the template itself
  is string formatting. The kind carries the formatted level or the cross direction that
  the text shows.
\<close>

datatype alert_kind = Touch string | Break string | Cross string

record message =
  m_kind :: alert_kind
  m_name :: string
  m_code :: string
  m_ts :: string
  m_price :: real
  m_change :: real
  m_vwap :: "real option"

datatype event =
    HttpQuote string
  | HttpKline string
  | ReadFile string
  | WriteFile string json
  | SendMessage string string message

record world =
  fs :: "string \<Rightarrow> content option"
  trace :: "event list"

definition emit :: "event \<Rightarrow> world \<Rightarrow> world" where
  "emit e w = w\<lparr>trace := trace w @ [e]\<rparr>"

text \<open>The command line (\<^verbatim>\<open>argparse\<close>), and what the environment does during one run.\<close>

record args =
  symbol :: string
  channel :: string
  target :: string
  config :: string
  levels :: string
  breakdown :: string
  state_dir :: string

text \<open>
  \<^verbatim>\<open>subprocess.run(cmd, check=False, ...)\<close>: the command runs and exits with 0, runs and
  exits with another status (ignored, \<open>check=False\<close>), or cannot be started, and then
  \<^verbatim>\<open>subprocess.run\<close> raises \<open>OSError\<close>.
\<close>

datatype send_outcome = Delivered | ExitNonzero | CannotLaunch

record env =
  now_weekday :: nat
  now_time :: pytime
  quote_response :: "exn + Quote"
  kline_response :: "exn + json list"
  send_result :: send_outcome

text \<open>\<^verbatim>\<open>fetch_sina_quote\<close>: one HTTP request, then raise or return the parsed quote.\<close>

definition fetch_sina_quote :: "env \<Rightarrow> string \<Rightarrow> world \<Rightarrow> (exn + Quote) \<times> world" where
  "fetch_sina_quote E s w = (quote_response E, emit (HttpQuote s) w)"

text \<open>
  \<^verbatim>\<open>load_state(path)\<close>, lines 144-150: \<open>{}\<close> when the file is missing or does not parse.
  The event records that the path was probed (and read when present).
\<close>

definition load_state :: "string \<Rightarrow> world \<Rightarrow> json \<times> world" where
  "load_state path w =
     (case fs w path of
        None \<Rightarrow> (JObj [], emit (ReadFile path) w)
      | Some Unparsable \<Rightarrow> (JObj [], emit (ReadFile path) w)
      | Some (Doc j) \<Rightarrow> (j, emit (ReadFile path) w))"

text \<open>\<^verbatim>\<open>save_state(path, state)\<close>, lines 153-155.\<close>

definition save_state :: "string \<Rightarrow> (string \<times> json) list \<Rightarrow> world \<Rightarrow> world" where
  "save_state path state w =
     emit (WriteFile path (JObj state)) (w\<lparr>fs := (fs w)(path \<mapsto> Doc (JObj state))\<rparr>)"

text \<open>\<^verbatim>\<open>send_message(channel, target, message)\<close>, lines 158-171.\<close>

definition send_message ::
  "env \<Rightarrow> string \<Rightarrow> string \<Rightarrow> message \<Rightarrow> world \<Rightarrow> (exn + unit) \<times> world" where
  "send_message E ch tg text w =
     (if send_result E = CannotLaunch then Inl OSError else Inr (),
      emit (SendMessage ch tg text) w)"

text \<open>Lines 189-194: the configuration, \<open>{}\<close> without \<open>--config\<close> or when reading fails.\<close>

definition load_config :: "args \<Rightarrow> world \<Rightarrow> json \<times> world" where
  "load_config a w =
     (if config a = [] then (JObj [], w)
      else (case fs w (config a) of
              Some (Doc j) \<Rightarrow> (j, emit (ReadFile (config a)) w)
            | _ \<Rightarrow> (JObj [], emit (ReadFile (config a)) w)))"

section \<open>Price alerts: the trigger engine\<close>

text \<open>
  Lines 236-243: the upside levels. Any exception in the block leaves \<open>levels = []\<close>.
\<close>

fun floats_of :: "builtins \<Rightarrow> json list \<Rightarrow> exn + real list" where
  "floats_of B [] = Inr []"
| "floats_of B (x # xs) =
     (case py_float B x of
        Inl e \<Rightarrow> Inl e
      | Inr r \<Rightarrow> (case floats_of B xs of Inl e \<Rightarrow> Inl e | Inr rs \<Rightarrow> Inr (r # rs)))"

definition parse_levels :: "builtins \<Rightarrow> string \<Rightarrow> exn + real list" where
  "parse_levels B s =
     floats_of B (map (\<lambda>x. JStr (strip x)) (filter (\<lambda>x. strip x \<noteq> []) (split_on CHR '','' s)))"

definition resolve_levels :: "builtins \<Rightarrow> json \<Rightarrow> string \<Rightarrow> real list" where
  "resolve_levels B cfg s =
     (case dict_get cfg ''levels_up'' JNull of
        Inl e \<Rightarrow> []
      | Inr (JArr xs) \<Rightarrow> (case floats_of B xs of Inl e \<Rightarrow> [] | Inr ls \<Rightarrow> ls)
      | Inr _ \<Rightarrow> (case parse_levels B s of Inl e \<Rightarrow> [] | Inr ls \<Rightarrow> ls))"

text \<open>
  Lines 258-261: the breakdown level. The handler calls \<^verbatim>\<open>float(args.breakdown)\<close>
  outside any \<open>try\<close>, so that call can raise out of \<open>main\<close>.
\<close>

definition resolve_breakdown :: "builtins \<Rightarrow> json \<Rightarrow> string \<Rightarrow> exn + real" where
  "resolve_breakdown B cfg s =
     (case dict_get cfg ''breakdown'' JNull of
        Inl e \<Rightarrow> py_float B (JStr s)
      | Inr JNull \<Rightarrow> py_float B (JStr s)
      | Inr v \<Rightarrow> (case py_float B v of Inr r \<Rightarrow> Inr r | Inl e \<Rightarrow> py_float B (JStr s)))"

text \<open>The trigger ids (lines 245, 262, 278).\<close>

definition touch_key :: "real \<Rightarrow> string" where
  "touch_key lv = ''touch_up_'' @ fmt_2f lv"

definition break_key :: "real \<Rightarrow> string" where
  "break_key bd = ''break_dn_'' @ fmt_2f bd"

definition cross_key :: "string \<Rightarrow> string" where
  "cross_key rel = ''vwap_cross_'' @ rel"

text \<open>
  After line 205 \<open>state\<close> is a dict and \<open>fired\<close> is the object stored under its key
  \<open>"fired"\<close> (the same object, so writing \<open>fired[key]\<close> changes \<open>state\<close>).
\<close>

definition fired_of :: "(string \<times> json) list \<Rightarrow> json" where
  "fired_of state = (case map_of state ''fired'' of Some v \<Rightarrow> v | None \<Rightarrow> JObj [])"

definition setdefault :: "(string \<times> json) list \<Rightarrow> string \<Rightarrow> json \<Rightarrow> (string \<times> json) list" where
  "setdefault state k d = (case map_of state k of Some v \<Rightarrow> state | None \<Rightarrow> state @ [(k, d)])"

text \<open>\<^verbatim>\<open>fired[key] = True\<close>: item assignment, which only a dict (of these values) supports.\<close>

definition mark_fired :: "(string \<times> json) list \<Rightarrow> string \<Rightarrow> exn + (string \<times> json) list" where
  "mark_fired state key =
     (case fired_of state of
        JObj f \<Rightarrow> Inr (AList.update ''fired'' (JObj (AList.update key (JBool True) f)) state)
      | _ \<Rightarrow> Inl TypeError)"

text \<open>
  The local variables of one poll that the triggers read: arguments, environment,
  configuration, quote, average price and the path of the state file.
\<close>

record poll =
  p_args :: args
  p_env :: env
  p_cfg :: json
  p_quote :: Quote
  p_vwap :: "real option"
  p_path :: string

definition vwap_available :: "real option \<Rightarrow> bool" where
  "vwap_available v = (case v of None \<Rightarrow> False | Some x \<Rightarrow> x \<noteq> 0)"

text \<open>Lines 213-216: the relation of the price to the average, when there is one.\<close>

definition relation_of :: "real \<Rightarrow> real option \<Rightarrow> string option" where
  "relation_of price v =
     (case v of
        None \<Rightarrow> None
      | Some x \<Rightarrow>
          if x \<noteq> 0
          then Some (if price > x then ''above'' else if price < x then ''below'' else ''equal'')
          else None)"

definition poll_ts :: "poll \<Rightarrow> string" where
  "poll_ts P = q_date (p_quote P) @ '' '' @ q_time (p_quote P)"

definition alert :: "poll \<Rightarrow> alert_kind \<Rightarrow> message" where
  "alert P k =
     \<lparr> m_kind = k,
       m_name = q_name (p_quote P),
       m_code = drop (length (symbol (p_args P)) - 6) (symbol (p_args P)),
       m_ts = poll_ts P,
       m_price = q_price (p_quote P),
       m_change = pct (q_price (p_quote P)) (q_preclose (p_quote P)),
       m_vwap = (if vwap_available (p_vwap P) then p_vwap P else None) \<rparr>"

text \<open>
  \<^verbatim>\<open>fire(key, text)\<close>, lines 221-227: mark, stamp, save, then send. The result is the
  state as the call leaves it.
\<close>

definition fire ::
  "poll \<Rightarrow> string \<Rightarrow> message \<Rightarrow> (string \<times> json) list \<Rightarrow> world
     \<Rightarrow> (exn + (string \<times> json) list) \<times> world" where
  "fire P key text state w =
     (case dict_get (fired_of state) key JNull of
        Inl e \<Rightarrow> (Inl e, w)
      | Inr v \<Rightarrow>
          if truthy v then (Inr state, w)
          else (case mark_fired state key of
                  Inl e \<Rightarrow> (Inl e, w)
                | Inr state1 \<Rightarrow>
                    (let state2 = AList.update ''last_fire_at'' (JStr (poll_ts P)) state1;
                         w1 = save_state (p_path P) state2 w
                     in case send_message (p_env P) (channel (p_args P)) (target (p_args P))
                               text w1 of
                          (Inl e, w2) \<Rightarrow> (Inl e, w2)
                        | (Inr u, w2) \<Rightarrow> (Inr state2, w2))))"

text \<open>
  The loop of lines 244-255 up to the level it fires for: the first level in list order
  with \<open>q.price >= lv and not fired.get(key)\<close>. The state does not change before that,
  and \<open>fired.get\<close> is only evaluated when the price test holds.
\<close>

fun first_touch :: "real \<Rightarrow> json \<Rightarrow> real list \<Rightarrow> exn + real option" where
  "first_touch price fired [] = Inr None"
| "first_touch price fired (lv # lvs) =
     (if price \<ge> lv
      then (case dict_get fired (touch_key lv) JNull of
              Inl e \<Rightarrow> Inl e
            | Inr v \<Rightarrow> if \<not> truthy v then Inr (Some lv) else first_touch price fired lvs)
      else first_touch price fired lvs)"

text \<open>A step of \<open>main\<close> either falls through to the next statement or returns.\<close>

datatype flow = Continue | Return

text \<open>Lines 236-255: the upside levels.\<close>

definition touch_step ::
  "builtins \<Rightarrow> poll \<Rightarrow> (string \<times> json) list \<Rightarrow> world \<Rightarrow> (exn + flow) \<times> world" where
  "touch_step B P state w =
     (case first_touch (q_price (p_quote P)) (fired_of state)
             (resolve_levels B (p_cfg P) (levels (p_args P))) of
        Inl e \<Rightarrow> (Inl e, w)
      | Inr None \<Rightarrow> (Inr Continue, w)
      | Inr (Some lv) \<Rightarrow>
          (case fire P (touch_key lv) (alert P (Touch (fmt_2f lv))) state w of
             (Inl e, w') \<Rightarrow> (Inl e, w')
           | (Inr state', w') \<Rightarrow> (Inr Return, w')))"

text \<open>Lines 257-272: the breakdown level.\<close>

definition breakdown_step ::
  "builtins \<Rightarrow> poll \<Rightarrow> (string \<times> json) list \<Rightarrow> world \<Rightarrow> (exn + flow) \<times> world" where
  "breakdown_step B P state w =
     (case resolve_breakdown B (p_cfg P) (breakdown (p_args P)) of
        Inl e \<Rightarrow> (Inl e, w)
      | Inr bd \<Rightarrow>
          if q_price (p_quote P) < bd
          then (case dict_get (fired_of state) (break_key bd) JNull of
                  Inl e \<Rightarrow> (Inl e, w)
                | Inr v \<Rightarrow>
                    if \<not> truthy v
                    then (case fire P (break_key bd) (alert P (Break (fmt_2f bd))) state w of
                            (Inl e, w') \<Rightarrow> (Inl e, w')
                          | (Inr state', w') \<Rightarrow> (Inr Return, w'))
                    else (Inr Continue, w))
          else (Inr Continue, w))"

text \<open>Lines 274-293: the cross of the average price, and the write-back of the relation.\<close>

definition vwap_step ::
  "poll \<Rightarrow> (string \<times> json) list \<Rightarrow> world \<Rightarrow> (exn + unit) \<times> world" where
  "vwap_step P state w =
     (case dict_get (p_cfg P) ''vwap_cross'' (JBool True) of
        Inl e \<Rightarrow> (Inl e, w)
      | Inr enabled \<Rightarrow>
          (case relation_of (q_price (p_quote P)) (p_vwap P) of
             None \<Rightarrow> (Inr (), w)
           | Some rel \<Rightarrow>
               if truthy enabled \<and> vwap_available (p_vwap P) \<and> rel \<in> set [''above'', ''below'']
               then
                 (case dict_get (JObj state) ''vwap_rel'' JNull of
                    Inl e \<Rightarrow> (Inl e, w)
                  | Inr last_rel \<Rightarrow>
                      if truthy last_rel \<and> last_rel \<noteq> JStr rel
                      then (case dict_get (fired_of state) (cross_key rel) JNull of
                              Inl e \<Rightarrow> (Inl e, w)
                            | Inr v \<Rightarrow>
                                if \<not> truthy v
                                then (case fire P (cross_key rel) (alert P (Cross rel)) state w of
                                        (Inl e, w') \<Rightarrow> (Inl e, w')
                                      | (Inr state', w') \<Rightarrow>
                                          (Inr (),
                                           save_state (p_path P)
                                             (AList.update ''vwap_rel'' (JStr rel) state') w'))
                                else (Inr (),
                                      save_state (p_path P)
                                        (AList.update ''vwap_rel'' (JStr rel) state) w))
                      else (Inr (),
                            save_state (p_path P)
                              (AList.update ''vwap_rel'' (JStr rel) state) w))
               else (Inr (), w)))"

text \<open>Lines 218-293: the three trigger families in their order.\<close>

definition evaluate ::
  "builtins \<Rightarrow> poll \<Rightarrow> (string \<times> json) list \<Rightarrow> world \<Rightarrow> (exn + unit) \<times> world" where
  "evaluate B P state w =
     (case touch_step B P state w of
        (Inl e, w1) \<Rightarrow> (Inl e, w1)
      | (Inr Return, w1) \<Rightarrow> (Inr (), w1)
      | (Inr Continue, w1) \<Rightarrow>
          (case breakdown_step B P state w1 of
             (Inl e, w2) \<Rightarrow> (Inl e, w2)
           | (Inr Return, w2) \<Rightarrow> (Inr (), w2)
           | (Inr Continue, w2) \<Rightarrow> vwap_step P state w2))"

text \<open>
  Lines 201-205: a state whose stored date is not today's is replaced by a fresh one;
  then \<open>fired\<close> is created when missing. \<open>state.get\<close> raises when the file held JSON that
  is not an object.
\<close>

definition fresh_state :: "string \<Rightarrow> (string \<times> json) list" where
  "fresh_state day = [(''date'', JStr day), (''fired'', JObj [])]"

definition reset_state :: "string \<Rightarrow> json \<Rightarrow> exn + (string \<times> json) list" where
  "reset_state day loaded =
     (case dict_get loaded ''date'' JNull of
        Inl e \<Rightarrow> Inl e
      | Inr d \<Rightarrow>
          Inr (setdefault
                 (if d \<noteq> JStr day then fresh_state day
                  else (case loaded of JObj kvs \<Rightarrow> kvs | _ \<Rightarrow> []))
                 ''fired'' (JObj [])))"

definition state_path_of :: "args \<Rightarrow> string \<Rightarrow> string" where
  "state_path_of a day = state_dir a @ ''/'' @ day @ ''_'' @ symbol a @ ''.json''"

text \<open>
  The locals of a poll once the quote is there: lines 196-198 and 207-211. The \<open>try\<close>
  around \<^verbatim>\<open>compute_vwap\<close> turns every exception into \<open>vwap = None\<close>.
\<close>

definition mk_poll :: "builtins \<Rightarrow> args \<Rightarrow> env \<Rightarrow> json \<Rightarrow> Quote \<Rightarrow> poll" where
  "mk_poll B a E cfg q =
     \<lparr> p_args = a, p_env = E, p_cfg = cfg, p_quote = q,
       p_vwap = (case compute_vwap B (kline_response E) (q_date q) of
                   Inl e \<Rightarrow> None | Inr v \<Rightarrow> v),
       p_path = state_path_of a (q_date q) \<rparr>"

text \<open>
  \<^verbatim>\<open>main()\<close>, lines 174-293, after \<open>argparse\<close>: the gate on the clock, the
  configuration, the quote, the state of the day, the average price, the triggers.
\<close>

definition main :: "builtins \<Rightarrow> args \<Rightarrow> env \<Rightarrow> world \<Rightarrow> (exn + unit) \<times> world" where
  "main B a E w =
     (if \<not> is_trading_time (now_weekday E) (now_time E) then (Inr (), w)
      else
        (case load_config a w of
           (cfg, w1) \<Rightarrow>
             (case fetch_sina_quote E (symbol a) w1 of
                (Inl e, w2) \<Rightarrow> (Inl e, w2)
              | (Inr q, w2) \<Rightarrow>
                  (case load_state (state_path_of a (q_date q)) w2 of
                     (loaded, w3) \<Rightarrow>
                       (case reset_state (q_date q) loaded of
                          Inl e \<Rightarrow> (Inl e, w3)
                        | Inr state \<Rightarrow>
                            evaluate B (mk_poll B a E cfg q) state
                              (emit (HttpKline (symbol a)) w3))))))"

text \<open>
  Lines 296-301: the entry point. Every exception of \<open>main\<close> ends the process with
  \<^verbatim>\<open>sys.exit(0)\<close>; a traceback would be an uncaught exception.
\<close>

datatype exit_status = Exit nat | Traceback exn

definition script :: "builtins \<Rightarrow> args \<Rightarrow> env \<Rightarrow> world \<Rightarrow> exit_status \<times> world" where
  "script B a E w =
     (case main B a E w of
        (Inl e, w') \<Rightarrow> (Exit 0, w')
      | (Inr u, w') \<Rightarrow> (Exit 0, w'))"

section \<open>Notions used to state the properties\<close>

text \<open>
  A provider is usable when its \<^verbatim>\<open>kline\<close> call returns a non-empty list. The last
  failure of a list of providers is the exception of the last one that raised.
\<close>

definition usable :: "Provider \<Rightarrow> bool" where
  "usable p = (case p_kline p of Inr bars \<Rightarrow> bars \<noteq> [] | Inl e \<Rightarrow> False)"

fun last_failure :: "Provider list \<Rightarrow> exn option" where
  "last_failure [] = None"
| "last_failure (p # ps) =
     (case last_failure ps of
        Some e \<Rightarrow> Some e
      | None \<Rightarrow> (case p_kline p of Inl e \<Rightarrow> Some e | Inr bars \<Rightarrow> None))"

text \<open>The trigger id that the kind of an alert stands for.\<close>

fun trigger_id :: "alert_kind \<Rightarrow> string" where
  "trigger_id (Touch s) = ''touch_up_'' @ s"
| "trigger_id (Break s) = ''break_dn_'' @ s"
| "trigger_id (Cross r) = ''vwap_cross_'' @ r"

text \<open>
  A trigger id counts as fired in a state when \<open>fired.get(id)\<close> is truthy there; a file
  is marked when it holds such a state.
\<close>

definition is_fired :: "(string \<times> json) list \<Rightarrow> string \<Rightarrow> bool" where
  "is_fired state key =
     (case dict_get (fired_of state) key JNull of Inr v \<Rightarrow> truthy v | Inl e \<Rightarrow> False)"

definition marked :: "json \<Rightarrow> string \<Rightarrow> bool" where
  "marked j key = (case j of JObj state \<Rightarrow> is_fired state key | _ \<Rightarrow> False)"

definition file_marked :: "world \<Rightarrow> string \<Rightarrow> string \<Rightarrow> bool" where
  "file_marked w path key = (case fs w path of Some (Doc j) \<Rightarrow> marked j key | _ \<Rightarrow> False)"

text \<open>The events a run added to the trace, and the messages sent among them.\<close>

definition new_events :: "world \<Rightarrow> world \<Rightarrow> event list" where
  "new_events w w' = drop (length (trace w)) (trace w')"

fun sent :: "event list \<Rightarrow> message list" where
  "sent [] = []"
| "sent (SendMessage ch tg m # es) = m # sent es"
| "sent (e # es) = sent es"

text \<open>The time of day lies in neither trading window (bounds included in the windows).\<close>

definition outside_windows :: "pytime \<Rightarrow> bool" where
  "outside_windows t \<longleftrightarrow>
     \<not> ((9, 30, 0, 0) \<le> t \<and> t \<le> (11, 30, 0, 0)) \<and> \<not> ((13, 0, 0, 0) \<le> t \<and> t \<le> (15, 0, 0, 0))"

text \<open>
  The state that \<open>fire\<close> saves for a trigger id, and the world after \<open>fire\<close> has saved it
  and sent the alert of a kind.
\<close>

definition state_after_fire :: "poll \<Rightarrow> (string \<times> json) list \<Rightarrow> string \<Rightarrow> (string \<times> json) list" where
  "state_after_fire P state key =
     AList.update ''last_fire_at'' (JStr (poll_ts P))
       (case mark_fired state key of Inr s \<Rightarrow> s | Inl e \<Rightarrow> state)"

definition fired_world :: "poll \<Rightarrow> (string \<times> json) list \<Rightarrow> alert_kind \<Rightarrow> world \<Rightarrow> world" where
  "fired_world P state k w =
     emit (SendMessage (channel (p_args P)) (target (p_args P)) (alert P k))
       (save_state (p_path P) (state_after_fire P state (trigger_id k)) w)"

text \<open>
  The world in which the triggers of a poll are evaluated: the configuration was read,
  the quote fetched, the state file read and the minute series fetched.
\<close>

definition polled_world :: "args \<Rightarrow> Quote \<Rightarrow> world \<Rightarrow> world" where
  "polled_world a q w =
     emit (HttpKline (symbol a))
       (emit (ReadFile (state_path_of a (q_date q)))
          (emit (HttpQuote (symbol a)) (snd (load_config a w))))"

text \<open>
  A poll that fired the trigger of a kind from a state ends in the world after \<open>fire\<close>,
  or, for a cross, in that world with the relation saved on top.
\<close>

definition fired_outcome ::
  "poll \<Rightarrow> (string \<times> json) list \<Rightarrow> alert_kind \<Rightarrow> world \<Rightarrow> world \<Rightarrow> bool" where
  "fired_outcome P state k w w' \<longleftrightarrow>
     w' = fired_world P state k w
     \<or> (\<exists>rel. k = Cross rel
           \<and> w' = save_state (p_path P)
                    (AList.update ''vwap_rel'' (JStr rel)
                       (state_after_fire P state (trigger_id k)))
                    (fired_world P state k w))"

text \<open>A poll that fired nothing leaves the world alone or saves the relation once.\<close>

definition quiet_outcome :: "poll \<Rightarrow> (string \<times> json) list \<Rightarrow> world \<Rightarrow> world \<Rightarrow> bool" where
  "quiet_outcome P state w w' \<longleftrightarrow>
     w' = w
     \<or> (\<exists>rel. w' = save_state (p_path P) (AList.update ''vwap_rel'' (JStr rel) state) w)"

section \<open>Sample inputs\<close>

text \<open>Two one-minute bars, a bar with a negative volume, and four provider behaviours.\<close>

definition bar_0931 :: Bar where
  "bar_0931 = \<lparr> b_dt = (2024, 3, 4, 9, 31, 0), b_open = 10, b_high = 10.2, b_low = 9.9,
                 b_close = 10.1, b_volume = 1000, b_amount = 10050 \<rparr>"

definition bar_0932 :: Bar where
  "bar_0932 = \<lparr> b_dt = (2024, 3, 4, 9, 32, 0), b_open = 10.1, b_high = 10.3, b_low = 10,
                 b_close = 10.2, b_volume = 3000, b_amount = 30450 \<rparr>"

definition bar_negative :: Bar where
  "bar_negative = \<lparr> b_dt = (2024, 3, 4, 9, 33, 0), b_open = 10, b_high = 10, b_low = 10,
                     b_close = 10, b_volume = - 100, b_amount = - 500 \<rparr>"

definition eastmoney_down :: Provider where
  "eastmoney_down = \<lparr> p_name = ''eastmoney'', p_kline = Inl RequestError \<rparr>"

definition eastmoney_empty :: Provider where
  "eastmoney_empty = \<lparr> p_name = ''eastmoney'', p_kline = Inr [] \<rparr>"

definition sina_ok :: Provider where
  "sina_ok = \<lparr> p_name = ''sina'', p_kline = Inr [bar_0931, bar_0932] \<rparr>"

definition sina_empty :: Provider where
  "sina_empty = \<lparr> p_name = ''sina'', p_kline = Inr [] \<rparr>"

text \<open>
  A sample of the builtins: \<open>float\<close> on strings of the form digits or digits.digits (as
  the command line and the rows below use them), \<open>str\<close> on \<open>None\<close> and on booleans.
  Then the default command line, a quote of the day at a given price, three rows of the
  minute series (one of the previous day), a poll on a Monday at 10:15 and a world with
  no files.
\<close>

definition digit_value :: "char \<Rightarrow> nat option" where
  "digit_value c =
     map_of [(CHR ''0'', 0), (CHR ''1'', 1), (CHR ''2'', 2), (CHR ''3'', 3), (CHR ''4'', 4),
             (CHR ''5'', 5), (CHR ''6'', 6), (CHR ''7'', 7), (CHR ''8'', 8), (CHR ''9'', 9)] c"

fun nat_of_digits :: "nat \<Rightarrow> string \<Rightarrow> nat option" where
  "nat_of_digits acc [] = Some acc"
| "nat_of_digits acc (c # cs) =
     (case digit_value c of None \<Rightarrow> None | Some d \<Rightarrow> nat_of_digits (10 * acc + d) cs)"

definition decimal_of_string :: "string \<Rightarrow> real option" where
  "decimal_of_string s =
     (case split_on CHR ''.'' s of
        [i] \<Rightarrow> (if i = [] then None else map_option real (nat_of_digits 0 i))
      | [i, f] \<Rightarrow>
          (if i = [] \<or> f = [] then None
           else (case (nat_of_digits 0 i, nat_of_digits 0 f) of
                   (Some a, Some b) \<Rightarrow> Some (real a + real b / 10 ^ length f)
                 | _ \<Rightarrow> None))
      | _ \<Rightarrow> None)"

definition sample_builtins :: builtins where
  "sample_builtins =
     \<lparr> float_of_str = decimal_of_string,
       str_of = (\<lambda>x. case x of JNull \<Rightarrow> ''None'' | JBool b \<Rightarrow> (if b then ''True'' else ''False'')
                      | _ \<Rightarrow> []) \<rparr>"

definition cli :: args where
  "cli = \<lparr> symbol = ''sh600158'', channel = ''telegram'', target = ''42'', config = [],
           levels = ''10.00,10.03'', breakdown = ''9.86'', state_dir = ''alerts'' \<rparr>"

definition quote_at :: "real \<Rightarrow> Quote" where
  "quote_at p =
     \<lparr> q_name = ''stock'', q_open = 9.8, q_preclose = 9.7, q_price = p, q_high = 10.1,
       q_low = 9.7, q_volume = 4000, q_amount = 39600, q_date = ''2024-03-04'',
       q_time = ''10:15:00'' \<rparr>"

definition kline_rows :: "json list" where
  "kline_rows =
     [JObj [(''day'', JStr ''2024-03-01 15:00:00''), (''volume'', JStr ''500''),
            (''amount'', JStr ''4800'')],
      JObj [(''day'', JStr ''2024-03-04 09:31:00''), (''volume'', JStr ''1000''),
            (''amount'', JStr ''9800'')],
      JObj [(''day'', JStr ''2024-03-04 09:32:00''), (''volume'', JStr ''3000''),
            (''amount'', JStr ''29800'')]]"

definition monday_poll :: "real \<Rightarrow> env" where
  "monday_poll p =
     \<lparr> now_weekday = 0, now_time = (10, 15, 0, 0), quote_response = Inr (quote_at p),
       kline_response = Inr kline_rows, send_result = Delivered \<rparr>"

definition empty_world :: world where
  "empty_world = \<lparr> fs = (\<lambda>p. None), trace = [] \<rparr>"

text \<open>
  Rows of a day without trades, rows whose amounts are zero, and a world whose state file
  of the day still holds the state of the previous trading day.
\<close>

definition halted_rows :: "json list" where
  "halted_rows =
     [JObj [(''day'', JStr ''2024-03-04 09:31:00''), (''volume'', JStr ''0''),
            (''amount'', JStr ''0'')]]"

definition free_rows :: "json list" where
  "free_rows =
     [JObj [(''day'', JStr ''2024-03-04 09:31:00''), (''volume'', JStr ''1000''),
            (''amount'', JStr ''0'')]]"

definition stale_state :: "(string \<times> json) list" where
  "stale_state =
     [(''date'', JStr ''2024-03-01''),
      (''fired'', JObj [(''touch_up_10.00'', JBool True)]),
      (''last_fire_at'', JStr ''2024-03-01 10:15:00''),
      (''vwap_rel'', JStr ''above'')]"

definition stale_world :: world where
  "stale_world =
     \<lparr> fs = (\<lambda>p. None)(''alerts/2024-03-04_sh600158.json'' \<mapsto> Doc (JObj stale_state)),
       trace = [] \<rparr>"

text \<open>
  The state file of the day, the alert of a touched level at price 10.05, and the worlds
  after a first and after a second poll at that price from the world with no files.
\<close>

definition state_file :: string where
  "state_file = ''alerts/2024-03-04_sh600158.json''"

definition touch_alert :: "string \<Rightarrow> message" where
  "touch_alert lv =
     \<lparr> m_kind = Touch lv, m_name = ''stock'', m_code = ''600158'',
       m_ts = ''2024-03-04 10:15:00'', m_price = 10.05, m_change = (10.05 / 9.7 - 1) * 100,
       m_vwap = Some 9.9 \<rparr>"

definition state_1000 :: "(string \<times> json) list" where
  "state_1000 =
     [(''date'', JStr ''2024-03-04''),
      (''fired'', JObj [(''touch_up_10.00'', JBool True)]),
      (''last_fire_at'', JStr ''2024-03-04 10:15:00'')]"

definition state_1003 :: "(string \<times> json) list" where
  "state_1003 =
     [(''date'', JStr ''2024-03-04''),
      (''fired'', JObj [(''touch_up_10.00'', JBool True), (''touch_up_10.03'', JBool True)]),
      (''last_fire_at'', JStr ''2024-03-04 10:15:00'')]"

definition first_events :: "event list" where
  "first_events =
     [HttpQuote ''sh600158'', ReadFile state_file, HttpKline ''sh600158'',
      WriteFile state_file (JObj state_1000),
      SendMessage ''telegram'' ''42'' (touch_alert ''10.00'')]"

definition second_events :: "event list" where
  "second_events =
     [HttpQuote ''sh600158'', ReadFile state_file, HttpKline ''sh600158'',
      WriteFile state_file (JObj state_1003),
      SendMessage ''telegram'' ''42'' (touch_alert ''10.03'')]"

definition first_world :: world where
  "first_world = \<lparr> fs = (\<lambda>p. None)(state_file \<mapsto> Doc (JObj state_1000)), trace = first_events \<rparr>"

definition second_world :: world where
  "second_world =
     \<lparr> fs = (\<lambda>p. None)(state_file \<mapsto> Doc (JObj state_1003)),
       trace = first_events @ second_events \<rparr>"

text \<open>
  A configuration file that lists the upside levels in descending order, and states of
  the day whose stored relation is \<open>below\<close> and \<open>above\<close>.
\<close>

definition cfg_args :: args where
  "cfg_args = cli\<lparr>config := ''cfg.json''\<rparr>"

definition descending_cfg :: json where
  "descending_cfg =
     JObj [(''levels_up'', JArr [JNum 10.03, JNum 10]), (''breakdown'', JNum 9.86),
           (''vwap_cross'', JBool True)]"

definition cfg_world :: world where
  "cfg_world = \<lparr> fs = (\<lambda>p. None)(''cfg.json'' \<mapsto> Doc descending_cfg), trace = [] \<rparr>"

definition below_state :: "(string \<times> json) list" where
  "below_state =
     [(''date'', JStr ''2024-03-04''), (''fired'', JObj []), (''vwap_rel'', JStr ''below'')]"

definition below_world :: world where
  "below_world = \<lparr> fs = (\<lambda>p. None)(state_file \<mapsto> Doc (JObj below_state)), trace = [] \<rparr>"

definition above_state :: "(string \<times> json) list" where
  "above_state =
     [(''date'', JStr ''2024-03-04''), (''fired'', JObj []), (''vwap_rel'', JStr ''above'')]"

definition above_world :: world where
  "above_world = \<lparr> fs = (\<lambda>p. None)(state_file \<mapsto> Doc (JObj above_state)), trace = [] \<rparr>"

section \<open>Properties of the aggregator and of the provider chain\<close>

lemma py_max_Max: "py_max x xs = Max (set (x # xs))"
proof -
  have "(\<lambda>y m. if m < y then y else m) = (max :: real \<Rightarrow> real \<Rightarrow> real)"
    by (intro ext) (simp add: max_def not_less)
  then show ?thesis
    by (simp only: py_max_def Max.set_eq_fold)
qed

lemma py_min_Min: "py_min x xs = Min (set (x # xs))"
proof -
  have "(\<lambda>y m. if y < m then y else m) = (min :: real \<Rightarrow> real \<Rightarrow> real)"
    by (intro ext) (auto simp add: min_def)
  then show ?thesis
    by (simp only: py_min_def Min.set_eq_fold)
qed

lemma py_sum_sum_list: "py_sum xs = sum_list xs"
proof -
  have "foldl (+) a xs = a + sum_list xs" for a :: real
    by (induction xs arbitrary: a) (simp_all add: algebra_simps)
  from this [of 0] show ?thesis by (simp add: py_sum_def)
qed

lemma summarize_ohlc_nonempty:
  "bars \<noteq> [] \<Longrightarrow>
   summarize_ohlc bars =
     Some \<lparr> o_open = b_open (hd bars),
            o_high = Max (b_high ` set bars),
            o_low = Min (b_low ` set bars),
            o_close = b_close (last bars),
            o_vol = sum_list (map b_volume bars),
            o_amt = sum_list (map b_amount bars) \<rparr>"
  by (cases bars) (simp_all add: py_max_Max py_min_Min py_sum_sum_list)

lemma vwap_cases:
  "vwap s = (if o_vol s \<noteq> 0 then Inr (Some (o_amt s / o_vol s)) else Inr None)"
  by (simp add: vwap_def py_div_def)

lemma sort_bars_permutation:
  assumes "mset bars' = mset bars" "distinct (map b_dt bars)"
  shows "sort_bars bars' = sort_bars bars"
  unfolding sort_bars_def
proof (rule sort_key_inj_key_eq)
  show "mset bars' = mset (sort_key b_dt bars)" using assms by simp
  have "set bars' = set bars" using assms(1) by (metis set_mset_mset)
  then show "inj_on b_dt (set bars')" using assms(2) by (simp add: distinct_map)
  show "sorted (map b_dt (sort_key b_dt bars))" by simp
qed

text \<open>
  Claim C8, as amended. \<open>summarize_ohlc\<close> returns nothing for an empty list of bars. For a
  non-empty list it returns the open of the first bar, the largest high, the smallest
  low, the close of the last bar, the sum of the volumes and the sum of the amounts; the
  derived average price is amount / volume when the volume is not zero (so whenever it is
  positive) and undefined when the volume is zero, and it never raises.
\<close>

theorem summarize_ohlc_fields:
  "summarize_ohlc [] = None
   \<and> (bars \<noteq> [] \<longrightarrow>
       (\<exists>s. summarize_ohlc bars = Some s
          \<and> o_open s = b_open (hd bars)
          \<and> o_high s = Max (b_high ` set bars)
          \<and> o_low s = Min (b_low ` set bars)
          \<and> o_close s = b_close (last bars)
          \<and> o_vol s = sum_list (map b_volume bars)
          \<and> o_amt s = sum_list (map b_amount bars)
          \<and> vwap s = (if o_vol s \<noteq> 0 then Inr (Some (o_amt s / o_vol s)) else Inr None)))"
  by (simp add: summarize_ohlc_nonempty vwap_cases)

text \<open>
  Claim C8, witness: the summary of the two sample bars, whose volume is 4000 and whose
  average price is 40500 / 4000.
\<close>

theorem summarize_ohlc_fields_witness:
  "[bar_0931, bar_0932] \<noteq> []
   \<and> (\<exists>s. summarize_ohlc [bar_0931, bar_0932] = Some s
        \<and> o_open s = 10 \<and> o_high s = 10.3 \<and> o_low s = 9.9 \<and> o_close s = 10.2
        \<and> o_vol s = 4000 \<and> o_amt s = 40500 \<and> vwap s = Inr (Some 10.125))"
  using summarize_ohlc_fields [of "[bar_0931, bar_0932]"]
  by (simp add: bar_0931_def bar_0932_def py_max_def py_min_def py_sum_def)

text \<open>
  Claim C8 as stated says the average is undefined whenever the volume is not positive.
  A single bar with volume -100 and amount -500 has a summary whose volume is not
  positive and whose average price is 5.
\<close>

theorem vwap_negative_volume_counterexample:
  "summarize_ohlc [bar_negative] =
     Some \<lparr> o_open = 10, o_high = 10, o_low = 10, o_close = 10, o_vol = - 100, o_amt = - 500 \<rparr>
   \<and> \<not> (0 < o_vol \<lparr> o_open = 10, o_high = 10, o_low = 10, o_close = 10,
                      o_vol = - 100, o_amt = - 500 \<rparr>)
   \<and> vwap \<lparr> o_open = 10, o_high = 10, o_low = 10, o_close = 10, o_vol = - 100, o_amt = - 500 \<rparr>
       = Inr (Some 5)"
  by (simp add: bar_negative_def py_max_def py_min_def py_sum_def vwap_def py_div_def)

lemma sorted_le_last:
  fixes xs :: "'a::linorder list"
  shows "sorted xs \<Longrightarrow> x \<in> set xs \<Longrightarrow> x \<le> last xs"
  by (induction xs) auto

lemma sorted_hd_le:
  fixes xs :: "'a::linorder list"
  shows "sorted xs \<Longrightarrow> x \<in> set xs \<Longrightarrow> hd xs \<le> x"
  by (cases xs) auto

lemma sort_bars_ends:
  assumes ne: "bars \<noteq> []" and d: "distinct (map b_dt bars)"
    and first: "first \<in> set bars" "\<forall>b\<in>set bars. b_dt first \<le> b_dt b"
    and lst: "lst \<in> set bars" "\<forall>b\<in>set bars. b_dt b \<le> b_dt lst"
  shows "hd (sort_bars bars) = first \<and> last (sort_bars bars) = lst"
proof -
  let ?s = "sort_bars bars"
  have set_s: "set ?s = set bars" by (simp add: sort_bars_def)
  have ne_s: "?s \<noteq> []" using ne set_s by auto
  have sorted_s: "sorted (map b_dt ?s)" by (simp add: sort_bars_def)
  have inj: "inj_on b_dt (set bars)" using d by (simp add: distinct_map)
  have hd_in: "hd ?s \<in> set bars" using ne_s set_s hd_in_set by blast
  have last_in: "last ?s \<in> set bars" using ne_s set_s last_in_set by blast
  have "b_dt (hd ?s) \<le> b_dt first"
  proof -
    from first(1) set_s have "b_dt first \<in> set (map b_dt ?s)" by auto
    moreover have "hd (map b_dt ?s) = b_dt (hd ?s)" using ne_s by (simp add: hd_map)
    ultimately show ?thesis
      using sorted_hd_le [OF sorted_s] by simp
  qed
  with first(2) hd_in have "b_dt (hd ?s) = b_dt first" by force
  with inj hd_in first(1) have h: "hd ?s = first" by (auto dest: inj_onD)
  have "b_dt lst \<le> b_dt (last ?s)"
  proof -
    from lst(1) set_s have "b_dt lst \<in> set (map b_dt ?s)" by auto
    moreover have "last (map b_dt ?s) = b_dt (last ?s)" using ne_s by (simp add: last_map)
    ultimately show ?thesis
      using sorted_le_last [OF sorted_s] by simp
  qed
  with lst(2) last_in have "b_dt (last ?s) = b_dt lst" by force
  with inj last_in lst(1) have l: "last ?s = lst" by (auto dest: inj_onD)
  from h l show ?thesis by simp
qed

text \<open>
  Claim C4, as amended. \<open>summarize_ohlc\<close> does not sort. For a permutation of the same
  bars it yields nothing exactly when the original yields nothing, and the same high and
  the same low; its open and close are those of the first and the last bar of the list as
  given. Once the permutation is sorted by timestamp, as the providers do before they
  return, and the timestamps are distinct, the output is the same as for the sorted
  original, with the open of the earliest bar and the close of the latest.
\<close>

theorem summarize_ohlc_permutation:
  assumes "mset bars' = mset bars"
  shows "(summarize_ohlc bars' = None \<longleftrightarrow> summarize_ohlc bars = None)
    \<and> map_option o_high (summarize_ohlc bars') = map_option o_high (summarize_ohlc bars)
    \<and> map_option o_low (summarize_ohlc bars') = map_option o_low (summarize_ohlc bars)
    \<and> (bars' \<noteq> [] \<longrightarrow>
         map_option o_open (summarize_ohlc bars') = Some (b_open (hd bars'))
         \<and> map_option o_close (summarize_ohlc bars') = Some (b_close (last bars')))
    \<and> (distinct (map b_dt bars) \<longrightarrow>
         summarize_ohlc (sort_bars bars') = summarize_ohlc (sort_bars bars)
         \<and> (first \<in> set bars \<and> (\<forall>b\<in>set bars. b_dt first \<le> b_dt b)
              \<and> lst \<in> set bars \<and> (\<forall>b\<in>set bars. b_dt b \<le> b_dt lst) \<longrightarrow>
             map_option o_open (summarize_ohlc (sort_bars bars')) = Some (b_open first)
             \<and> map_option o_close (summarize_ohlc (sort_bars bars')) = Some (b_close lst)))"
proof (cases "bars = []")
  case True
  with assms have "bars' = []" by simp
  with True show ?thesis by (simp add: sort_bars_def)
next
  case False
  with assms have ne: "bars' \<noteq> []" by auto
  have set_eq: "set bars' = set bars" using assms by (metis set_mset_mset)
  have sorted_eq: "sort_bars bars' = sort_bars bars" if "distinct (map b_dt bars)"
    using assms that by (rule sort_bars_permutation)
  have sorted_ne: "sort_bars bars \<noteq> []"
    using False by (metis length_0_conv length_sort sort_bars_def)
  have ends: "map_option o_open (summarize_ohlc (sort_bars bars')) = Some (b_open first)
             \<and> map_option o_close (summarize_ohlc (sort_bars bars')) = Some (b_close lst)"
    if "distinct (map b_dt bars)" "first \<in> set bars" "\<forall>b\<in>set bars. b_dt first \<le> b_dt b"
       "lst \<in> set bars" "\<forall>b\<in>set bars. b_dt b \<le> b_dt lst"
    using sort_bars_ends [OF False that] sorted_eq [OF that(1)] sorted_ne
    by (simp add: summarize_ohlc_nonempty)
  have fields: "(summarize_ohlc bars' = None \<longleftrightarrow> summarize_ohlc bars = None)
    \<and> map_option o_high (summarize_ohlc bars') = map_option o_high (summarize_ohlc bars)
    \<and> map_option o_low (summarize_ohlc bars') = map_option o_low (summarize_ohlc bars)
    \<and> (bars' \<noteq> [] \<longrightarrow>
         map_option o_open (summarize_ohlc bars') = Some (b_open (hd bars'))
         \<and> map_option o_close (summarize_ohlc bars') = Some (b_close (last bars')))"
    using False ne set_eq by (simp add: summarize_ohlc_nonempty)
  show ?thesis
  proof (intro conjI impI)
    assume d: "distinct (map b_dt bars)"
    then show "summarize_ohlc (sort_bars bars') = summarize_ohlc (sort_bars bars)"
      by (simp add: sorted_eq)
    assume "first \<in> set bars \<and> (\<forall>b\<in>set bars. b_dt first \<le> b_dt b)
              \<and> lst \<in> set bars \<and> (\<forall>b\<in>set bars. b_dt b \<le> b_dt lst)"
    with ends [OF d] show
      "map_option o_open (summarize_ohlc (sort_bars bars')) = Some (b_open first)"
      "map_option o_close (summarize_ohlc (sort_bars bars')) = Some (b_close lst)"
      by blast+
  qed (use fields in blast)+
qed

text \<open>
  Claim C4, witness: the two sample bars in reverse order. High and low agree with the
  sorted order; open and close are those of the reversed list; after sorting, the
  summaries are equal, with the open of the bar of 09:31 and the close of the bar of
  09:32.
\<close>

theorem summarize_ohlc_permutation_witness:
  "mset [bar_0932, bar_0931] = mset [bar_0931, bar_0932]
   \<and> map_option o_high (summarize_ohlc [bar_0932, bar_0931]) = Some 10.3
   \<and> map_option o_low (summarize_ohlc [bar_0932, bar_0931]) = Some 9.9
   \<and> map_option o_open (summarize_ohlc [bar_0932, bar_0931]) = Some 10.1
   \<and> map_option o_close (summarize_ohlc [bar_0932, bar_0931]) = Some 10.1
   \<and> distinct (map b_dt [bar_0931, bar_0932])
   \<and> b_dt bar_0931 \<le> b_dt bar_0932
   \<and> summarize_ohlc (sort_bars [bar_0932, bar_0931]) = summarize_ohlc (sort_bars [bar_0931, bar_0932])
   \<and> map_option o_open (summarize_ohlc (sort_bars [bar_0932, bar_0931])) = Some 10
   \<and> map_option o_close (summarize_ohlc (sort_bars [bar_0932, bar_0931])) = Some 10.2"
proof -
  have perm: "mset [bar_0932, bar_0931] = mset [bar_0931, bar_0932]" by simp
  have d: "distinct (map b_dt [bar_0931, bar_0932])" "b_dt bar_0931 \<le> b_dt bar_0932"
    by (simp_all add: bar_0931_def bar_0932_def)
  have h: "map_option o_high (summarize_ohlc [bar_0931, bar_0932]) = Some 10.3"
    "map_option o_low (summarize_ohlc [bar_0931, bar_0932]) = Some 9.9"
    by (simp_all add: bar_0931_def bar_0932_def py_max_def py_min_def)
  show ?thesis
    using summarize_ohlc_permutation [OF perm, of bar_0931 bar_0932] d h perm
    by (simp add: bar_0931_def bar_0932_def sort_bars_def py_max_def py_min_def)
qed

text \<open>
  Claim C4 as stated fails: the two bars of 09:31 and 09:32, given in reverse order, are
  a permutation of the sorted list, and \<open>summarize_ohlc\<close> of the reversed list has open
  10.1 while \<open>summarize_ohlc\<close> of the sorted list has open 10.
\<close>

theorem summarize_ohlc_order_counterexample:
  "mset [bar_0932, bar_0931] = mset [bar_0931, bar_0932]
   \<and> sort_bars [bar_0931, bar_0932] = [bar_0931, bar_0932]
   \<and> map_option o_open (summarize_ohlc [bar_0932, bar_0931]) = Some 10.1
   \<and> map_option o_open (summarize_ohlc (sort_bars [bar_0931, bar_0932])) = Some 10
   \<and> summarize_ohlc [bar_0932, bar_0931] \<noteq> summarize_ohlc (sort_bars [bar_0931, bar_0932])"
  by (simp add: sort_bars_def bar_0931_def bar_0932_def)

lemma kline_loop_exhausted:
  "\<forall>q\<in>set ps. \<not> usable q \<Longrightarrow>
   kline_loop le ps =
     (Inl (RuntimeError ''All providers failed for kline''
        (case last_failure ps of Some e \<Rightarrow> Some e | None \<Rightarrow> le)), map p_name ps)"
  by (induction ps arbitrary: le) (auto simp: usable_def split: sum.splits option.splits)

lemma kline_loop_first_usable:
  "\<forall>q\<in>set pre. \<not> usable q \<Longrightarrow> usable p \<Longrightarrow>
   kline_loop le (pre @ p # post) = (p_kline p, map p_name pre @ [p_name p])"
  by (induction pre arbitrary: le) (auto simp: usable_def split: sum.splits option.splits)

lemma kline_loop_result:
  "(\<exists>e. fst (kline_loop le ps) = Inl e) \<longleftrightarrow> (\<forall>q\<in>set ps. \<not> usable q)"
proof
  assume raised: "\<exists>e. fst (kline_loop le ps) = Inl e"
  show "\<forall>q\<in>set ps. \<not> usable q"
  proof (rule ccontr)
    assume "\<not> (\<forall>q\<in>set ps. \<not> usable q)"
    then have "\<exists>q\<in>set ps. usable q" by blast
    then obtain pre p post where
      ps: "ps = pre @ p # post" and p: "usable p" and pre: "\<forall>q\<in>set pre. \<not> usable q"
      using split_list_first_prop [of ps usable] by blast
    from kline_loop_first_usable [OF pre p] ps
    have "fst (kline_loop le ps) = p_kline p" by simp
    moreover from p obtain bars where "p_kline p = Inr bars"
      by (auto simp: usable_def split: sum.splits)
    ultimately show False using raised by simp
  qed
next
  assume "\<forall>q\<in>set ps. \<not> usable q"
  from kline_loop_exhausted [OF this]
  show "\<exists>e. fst (kline_loop le ps) = Inl e" by simp
qed

text \<open>
  Claim C7. \<open>ProviderChain.kline\<close> calls the providers in order. When none is usable
  (each raises or returns an empty list) it has called all of them and raises the chain
  error that embeds the exception of the last provider that raised (\<open>None\<close> when none
  raised). When a provider is the first usable one, the chain returns that provider's
  non-empty result and has called exactly the providers up to and including it: a
  provider before it that raised or returned an empty list was passed over. The chain
  raises exactly when no provider is usable.
\<close>

theorem chain_kline_fallback:
  "((\<forall>q\<in>set ps. \<not> usable q) \<longrightarrow>
      chain_kline ps =
        (Inl (RuntimeError ''All providers failed for kline'' (last_failure ps)),
         map p_name ps))
   \<and> ((\<forall>q\<in>set pre. \<not> usable q) \<and> usable p \<longrightarrow>
      chain_kline (pre @ p # post) = (p_kline p, map p_name pre @ [p_name p])
      \<and> (\<exists>bars. p_kline p = Inr bars \<and> bars \<noteq> []))
   \<and> ((\<exists>e. fst (chain_kline ps) = Inl e) \<longleftrightarrow> (\<forall>q\<in>set ps. \<not> usable q))"
proof (intro conjI impI)
  assume "\<forall>q\<in>set ps. \<not> usable q"
  from kline_loop_exhausted [OF this, of None]
  show "chain_kline ps =
        (Inl (RuntimeError ''All providers failed for kline'' (last_failure ps)),
         map p_name ps)"
    by (simp add: chain_kline_def split: option.splits)
next
  assume a: "(\<forall>q\<in>set pre. \<not> usable q) \<and> usable p"
  then show "chain_kline (pre @ p # post) = (p_kline p, map p_name pre @ [p_name p])"
    by (simp add: chain_kline_def kline_loop_first_usable)
  from a show "\<exists>bars. p_kline p = Inr bars \<and> bars \<noteq> []"
    by (auto simp: usable_def split: sum.splits)
next
  show "(\<exists>e. fst (chain_kline ps) = Inl e) \<longleftrightarrow> (\<forall>q\<in>set ps. \<not> usable q)"
    unfolding chain_kline_def by (rule kline_loop_result)
qed

text \<open>
  Claim C7, witness: a chain whose two providers fail and return nothing raises with
  the failure of the first; a chain whose first provider returns an empty list falls
  through to the bars of the second.
\<close>

theorem chain_kline_fallback_witness:
  "\<not> usable eastmoney_down \<and> \<not> usable sina_empty
   \<and> chain_kline [eastmoney_down, sina_empty] =
       (Inl (RuntimeError ''All providers failed for kline'' (Some RequestError)),
        [''eastmoney'', ''sina''])
   \<and> \<not> usable eastmoney_empty \<and> usable sina_ok
   \<and> chain_kline ([eastmoney_empty] @ sina_ok # []) =
       (Inr [bar_0931, bar_0932], [''eastmoney'', ''sina''])
   \<and> (\<exists>e. fst (chain_kline [eastmoney_down, sina_empty]) = Inl e)"
  using chain_kline_fallback [of "[eastmoney_down, sina_empty]" "[eastmoney_empty]" sina_ok "[]"]
  by (simp add: usable_def eastmoney_down_def eastmoney_empty_def sina_ok_def sina_empty_def)

section \<open>Properties of the price alerts\<close>

text \<open>The definitions to unfold when a run is evaluated on concrete inputs.\<close>

lemmas model_defs =
  main_def evaluate_def touch_step_def breakdown_step_def vwap_step_def fire_def
  mk_poll_def reset_state_def fresh_state_def setdefault_def fired_of_def mark_fired_def
  load_config_def load_state_def save_state_def send_message_def fetch_sina_quote_def emit_def
  state_path_of_def is_trading_time_def resolve_levels_def resolve_breakdown_def parse_levels_def
  strip_def py_space_def dict_get_def py_float_def py_str_def to_num_def compute_vwap_def
  py_sum_def py_div_def touch_key_def break_key_def cross_key_def fmt_2f_def round_half_even_def
  show_nat.simps digit_def relation_of_def vwap_available_def alert_def poll_ts_def pct_def

lemmas sample_defs =
  sample_builtins_def decimal_of_string_def digit_value_def cli_def quote_at_def kline_rows_def
  monday_poll_def empty_world_def

lemmas world_defs =
  state_file_def touch_alert_def state_1000_def state_1003_def first_events_def
  second_events_def first_world_def second_world_def

lemmas relation_defs =
  below_state_def below_world_def above_state_def above_world_def

text \<open>
  Claim C9. A run whose clock shows a Saturday or a Sunday, or a time of day in neither
  trading window (09:30 to 11:30 and 13:00 to 15:00, bounds included), returns at once and
  leaves the world as it was: no request, no file read or written, no message; the
  process exits with status 0.
\<close>

theorem closed_market_no_effects:
  "now_weekday E = 5 \<or> now_weekday E = 6 \<or> outside_windows (now_time E) \<Longrightarrow>
   main B a E w = (Inr (), w) \<and> script B a E w = (Exit 0, w)"
  by (auto simp: main_def script_def is_trading_time_def outside_windows_def)

text \<open>
  Claim C9, witness: the sample poll moved to a Saturday, and to a Monday one microsecond
  after 11:30.
\<close>

theorem closed_market_no_effects_witness:
  "now_weekday ((monday_poll 10.05)\<lparr>now_weekday := 5\<rparr>) = 5
   \<and> main sample_builtins cli ((monday_poll 10.05)\<lparr>now_weekday := 5\<rparr>) empty_world
       = (Inr (), empty_world)
   \<and> outside_windows (now_time ((monday_poll 10.05)\<lparr>now_time := (11, 30, 0, 1)\<rparr>))
   \<and> main sample_builtins cli ((monday_poll 10.05)\<lparr>now_time := (11, 30, 0, 1)\<rparr>) empty_world
       = (Inr (), empty_world)
   \<and> script sample_builtins cli ((monday_poll 10.05)\<lparr>now_time := (11, 30, 0, 1)\<rparr>) empty_world
       = (Exit 0, empty_world)"
  using closed_market_no_effects
          [of "(monday_poll 10.05)\<lparr>now_weekday := 5\<rparr>" sample_builtins cli empty_world]
        closed_market_no_effects
          [of "(monday_poll 10.05)\<lparr>now_time := (11, 30, 0, 1)\<rparr>" sample_builtins cli empty_world]
  by (simp add: outside_windows_def monday_poll_def)

lemma filter_rows_error: "filter_rows B day rs = Inl e \<Longrightarrow> e = AttributeError"
  by (induction rs arbitrary: e)
     (auto simp: dict_get_def split: sum.splits json.splits if_splits)

lemma get_all_error: "get_all k rs = Inl e \<Longrightarrow> e = AttributeError"
  by (induction rs arbitrary: e)
     (auto simp: dict_get_def split: sum.splits json.splits if_splits)

lemma filter_rows_dicts:
  "filter_rows B day rs = Inr rows \<Longrightarrow> \<forall>r\<in>set rows. \<exists>kvs. r = JObj kvs"
  by (induction rs arbitrary: rows)
     (auto simp: dict_get_def split: sum.splits json.splits if_splits)

lemma get_all_dicts:
  "\<forall>r\<in>set rows. \<exists>kvs. r = JObj kvs \<Longrightarrow> \<exists>vs. get_all k rows = Inr vs"
  by (induction rows) (auto simp: dict_get_def split: sum.splits)

lemma relation_of_zero: "relation_of price (Some 0) = None"
  by (simp add: relation_of_def)

lemma alert_vwap_zero: "alert (P\<lparr>p_vwap := Some 0\<rparr>) k = alert (P\<lparr>p_vwap := None\<rparr>) k"
  by (simp add: alert_def vwap_available_def poll_ts_def)

lemma fire_vwap_zero:
  "fire (P\<lparr>p_vwap := Some 0\<rparr>) key text state w = fire (P\<lparr>p_vwap := None\<rparr>) key text state w"
  by (simp add: fire_def poll_ts_def Let_def cong: sum.case_cong if_cong)

lemma touch_step_vwap_zero:
  "touch_step B (P\<lparr>p_vwap := Some 0\<rparr>) state w = touch_step B (P\<lparr>p_vwap := None\<rparr>) state w"
  by (simp add: touch_step_def alert_vwap_zero fire_vwap_zero cong: sum.case_cong option.case_cong)

lemma breakdown_step_vwap_zero:
  "breakdown_step B (P\<lparr>p_vwap := Some 0\<rparr>) state w
     = breakdown_step B (P\<lparr>p_vwap := None\<rparr>) state w"
  by (simp add: breakdown_step_def alert_vwap_zero fire_vwap_zero cong: sum.case_cong if_cong)

lemma vwap_step_unavailable:
  "p_vwap P = None \<or> p_vwap P = Some 0 \<Longrightarrow>
   vwap_step P state w =
     (case dict_get (p_cfg P) ''vwap_cross'' (JBool True) of
        Inl e \<Rightarrow> (Inl e, w) | Inr v \<Rightarrow> (Inr (), w))"
  by (auto simp: vwap_step_def relation_of_def split: sum.splits)

text \<open>
  Claim C10. \<open>compute_vwap\<close> on fetched rows never raises \<open>ZeroDivisionError\<close>: it
  returns \<open>None\<close> when no row matches the day and when the summed volume is zero, and a
  value it returns is the summed amount divided by a non-zero summed volume. An average
  of exactly 0 counts as unavailable: no relation is computed, the run is the same as
  with no average at all, and the cross step leaves the world unchanged.
\<close>

theorem compute_vwap_no_zero_division:
  "compute_vwap B (Inr rows0) day \<noteq> Inl ZeroDivisionError
   \<and> (filter_rows B day rows0 = Inr [] \<longrightarrow> compute_vwap B (Inr rows0) day = Inr None)
   \<and> (filter_rows B day rows0 = Inr rows \<and> get_all ''volume'' rows = Inr vols
        \<and> py_sum (map (to_num B) vols) = 0
       \<longrightarrow> compute_vwap B (Inr rows0) day = Inr None)
   \<and> (compute_vwap B (Inr rows0) day = Inr (Some v) \<longrightarrow>
        (\<exists>rows vols amts.
           filter_rows B day rows0 = Inr rows \<and> rows \<noteq> []
           \<and> get_all ''volume'' rows = Inr vols \<and> get_all ''amount'' rows = Inr amts
           \<and> py_sum (map (to_num B) vols) \<noteq> 0
           \<and> v = py_sum (map (to_num B) amts) / py_sum (map (to_num B) vols)))
   \<and> relation_of price (Some 0) = None
   \<and> evaluate B (P\<lparr>p_vwap := Some 0\<rparr>) state w = evaluate B (P\<lparr>p_vwap := None\<rparr>) state w
   \<and> snd (vwap_step (P\<lparr>p_vwap := Some 0\<rparr>) state w) = w"
proof (intro conjI impI)
  show "compute_vwap B (Inr rows0) day \<noteq> Inl ZeroDivisionError"
    by (auto simp: compute_vwap_def py_div_def Let_def
             dest: filter_rows_error get_all_error split: sum.splits if_splits)
next
  assume "filter_rows B day rows0 = Inr []"
  then show "compute_vwap B (Inr rows0) day = Inr None"
    by (simp add: compute_vwap_def)
next
  assume a: "filter_rows B day rows0 = Inr rows \<and> get_all ''volume'' rows = Inr vols
        \<and> py_sum (map (to_num B) vols) = 0"
  then obtain amts where "get_all ''amount'' rows = Inr amts"
    using filter_rows_dicts get_all_dicts by blast
  with a show "compute_vwap B (Inr rows0) day = Inr None"
    by (simp add: compute_vwap_def Let_def)
next
  assume "compute_vwap B (Inr rows0) day = Inr (Some v)"
  then show "\<exists>rows vols amts.
           filter_rows B day rows0 = Inr rows \<and> rows \<noteq> []
           \<and> get_all ''volume'' rows = Inr vols \<and> get_all ''amount'' rows = Inr amts
           \<and> py_sum (map (to_num B) vols) \<noteq> 0
           \<and> v = py_sum (map (to_num B) amts) / py_sum (map (to_num B) vols)"
    by (auto simp: compute_vwap_def py_div_def Let_def split: sum.splits if_splits)
next
  show "relation_of price (Some 0) = None" by (rule relation_of_zero)
next
  have "vwap_step (P\<lparr>p_vwap := Some 0\<rparr>) state w' = vwap_step (P\<lparr>p_vwap := None\<rparr>) state w'"
    for w'
    by (simp add: vwap_step_unavailable)
  then show "evaluate B (P\<lparr>p_vwap := Some 0\<rparr>) state w
             = evaluate B (P\<lparr>p_vwap := None\<rparr>) state w"
    by (simp add: evaluate_def touch_step_vwap_zero breakdown_step_vwap_zero
             cong: sum.case_cong prod.case_cong flow.case_cong)
next
  show "snd (vwap_step (P\<lparr>p_vwap := Some 0\<rparr>) state w) = w"
    by (simp add: vwap_step_unavailable split: sum.splits)
qed

text \<open>
  Claim C10, witness: the sample rows asked for a day they do not cover, rows of a day
  without trades, rows with amounts of zero (an average of 0), and the sample rows of the
  day (an average of 9.9).
\<close>

theorem compute_vwap_no_zero_division_witness:
  "filter_rows sample_builtins ''2024-03-05'' kline_rows = Inr []
   \<and> compute_vwap sample_builtins (Inr kline_rows) ''2024-03-05'' = Inr None
   \<and> filter_rows sample_builtins ''2024-03-04'' halted_rows = Inr halted_rows
   \<and> get_all ''volume'' halted_rows = Inr [JStr ''0'']
   \<and> py_sum (map (to_num sample_builtins) [JStr ''0'']) = 0
   \<and> compute_vwap sample_builtins (Inr halted_rows) ''2024-03-04'' = Inr None
   \<and> compute_vwap sample_builtins (Inr free_rows) ''2024-03-04'' = Inr (Some 0)
   \<and> compute_vwap sample_builtins (Inr kline_rows) ''2024-03-04'' = Inr (Some 9.9)
   \<and> filter_rows sample_builtins ''2024-03-04'' kline_rows = Inr (tl kline_rows)"
proof -
  have empty: "filter_rows sample_builtins ''2024-03-05'' kline_rows = Inr []"
    by (simp add: model_defs sample_defs)
  have halted: "filter_rows sample_builtins ''2024-03-04'' halted_rows = Inr halted_rows
     \<and> get_all ''volume'' halted_rows = Inr [JStr ''0'']
     \<and> py_sum (map (to_num sample_builtins) [JStr ''0'']) = 0"
    by (simp add: model_defs sample_defs halted_rows_def)
  have some: "compute_vwap sample_builtins (Inr kline_rows) ''2024-03-04'' = Inr (Some 9.9)"
    by (simp add: model_defs sample_defs Let_def)
  have free: "compute_vwap sample_builtins (Inr free_rows) ''2024-03-04'' = Inr (Some 0)"
    by (simp add: model_defs sample_defs free_rows_def Let_def)
  have rows: "filter_rows sample_builtins ''2024-03-04'' kline_rows = Inr (tl kline_rows)"
    by (simp add: model_defs sample_defs)
  show ?thesis
    using compute_vwap_no_zero_division
            [of sample_builtins kline_rows "''2024-03-05''" "[]" "[]" 0]
          compute_vwap_no_zero_division
            [of sample_builtins halted_rows "''2024-03-04''" halted_rows "[JStr ''0'']" 0]
          compute_vwap_no_zero_division
            [of sample_builtins kline_rows "''2024-03-04''" "[]" "[]" "9.9"]
          empty halted some free rows
    by simp
qed

lemma load_config_fs: "fs (snd (load_config a w)) = fs w"
  by (simp add: load_config_def emit_def split: option.splits content.splits)

lemma load_state_after:
  "fs w2 = fs w \<Longrightarrow> load_state path w2 = (fst (load_state path w), emit (ReadFile path) w2)"
  by (simp add: load_state_def split: option.splits content.splits)

lemma main_open_market:
  assumes "is_trading_time (now_weekday E) (now_time E)" and "quote_response E = Inr q"
  shows "main B a E w =
     (case reset_state (q_date q) (fst (load_state (state_path_of a (q_date q)) w)) of
        Inl e \<Rightarrow>
          (Inl e, emit (ReadFile (state_path_of a (q_date q)))
                    (emit (HttpQuote (symbol a)) (snd (load_config a w))))
      | Inr state \<Rightarrow>
          evaluate B (mk_poll B a E (fst (load_config a w)) q) state (polled_world a q w))"
proof -
  obtain cfg w1 where lc: "load_config a w = (cfg, w1)"
    by (cases "load_config a w")
  have "fs w1 = fs w"
    using load_config_fs [of a w] lc by simp
  then have "fs (emit (HttpQuote (symbol a)) w1) = fs w"
    by (simp add: emit_def)
  from load_state_after [OF this, of "state_path_of a (q_date q)"] assms lc
  show ?thesis
    by (simp add: main_def fetch_sina_quote_def polled_world_def split: sum.splits)
qed

lemma reset_state_stale:
  "map_of kvs ''date'' \<noteq> Some (JStr day) \<Longrightarrow> reset_state day (JObj kvs) = Inr (fresh_state day)"
  by (auto simp: reset_state_def dict_get_def fresh_state_def setdefault_def
           split: option.splits)

lemma fresh_state_unfired: "\<not> is_fired (fresh_state day) key"
  by (simp add: is_fired_def fresh_state_def fired_of_def dict_get_def)

text \<open>
  Claim C6. When the state file of the poll holds a state whose stored date is not the
  date of the quote (or that stores no date), the triggers are evaluated on the fresh
  state of the day, which holds nothing but the date and an empty \<open>fired\<close> map: no
  trigger id is fired in it and no relation is stored, whatever the old state held.
\<close>

theorem stale_state_discarded:
  assumes "is_trading_time (now_weekday E) (now_time E)"
    and "quote_response E = Inr q"
    and "fs w (state_path_of a (q_date q)) = Some (Doc (JObj kvs))"
    and "map_of kvs ''date'' \<noteq> Some (JStr (q_date q))"
  shows "reset_state (q_date q) (JObj kvs) = Inr (fresh_state (q_date q))
    \<and> main B a E w =
        evaluate B (mk_poll B a E (fst (load_config a w)) q) (fresh_state (q_date q))
          (polled_world a q w)
    \<and> \<not> is_fired (fresh_state (q_date q)) key
    \<and> map_of (fresh_state (q_date q)) ''vwap_rel'' = None"
proof -
  from assms(3) have "fst (load_state (state_path_of a (q_date q)) w) = JObj kvs"
    by (simp add: load_state_def)
  with main_open_market [OF assms(1,2), of B a w] reset_state_stale [OF assms(4)]
  show ?thesis
    by (simp add: fresh_state_unfired) (simp add: fresh_state_def)
qed

text \<open>
  Claim C6, witness: the state file of the day holds a state dated 2024-03-01 in which
  the level 10.00 has fired; the poll of 2024-03-04 at 10.05 runs on the fresh state and
  sends the alert for 10.00 again.
\<close>

theorem stale_state_discarded_witness:
  "is_trading_time (now_weekday (monday_poll 10.05)) (now_time (monday_poll 10.05))
   \<and> quote_response (monday_poll 10.05) = Inr (quote_at 10.05)
   \<and> fs stale_world (state_path_of cli (q_date (quote_at 10.05))) = Some (Doc (JObj stale_state))
   \<and> is_fired stale_state ''touch_up_10.00''
   \<and> map_of stale_state ''date'' \<noteq> Some (JStr (q_date (quote_at 10.05)))
   \<and> main sample_builtins cli (monday_poll 10.05) stale_world =
        evaluate sample_builtins
          (mk_poll sample_builtins cli (monday_poll 10.05) (fst (load_config cli stale_world))
             (quote_at 10.05))
          (fresh_state (q_date (quote_at (10.05)))) (polled_world cli (quote_at 10.05) stale_world)
   \<and> map m_kind (sent (trace (snd (main sample_builtins cli (monday_poll 10.05) stale_world))))
        = [Touch ''10.00'']"
proof -
  have h: "is_trading_time (now_weekday (monday_poll 10.05)) (now_time (monday_poll 10.05))
   \<and> quote_response (monday_poll 10.05) = Inr (quote_at 10.05)
   \<and> fs stale_world (state_path_of cli (q_date (quote_at 10.05))) = Some (Doc (JObj stale_state))
   \<and> is_fired stale_state ''touch_up_10.00''
   \<and> map_of stale_state ''date'' \<noteq> Some (JStr (q_date (quote_at 10.05)))"
    by (simp add: model_defs sample_defs stale_world_def stale_state_def is_fired_def)
  have run: "map m_kind (sent (trace (snd (main sample_builtins cli (monday_poll 10.05) stale_world))))
        = [Touch ''10.00'']"
    by (simp add: model_defs sample_defs stale_world_def stale_state_def Let_def)
  from h stale_state_discarded [of "monday_poll 10.05" "quote_at 10.05" stale_world cli stale_state
      sample_builtins]
  show ?thesis using run by simp
qed

subsection \<open>The state and its fired map\<close>

lemma dict_get_JObj:
  "dict_get d k dflt = Inr v \<Longrightarrow> \<exists>kvs. d = JObj kvs"
  by (cases d) (simp_all add: dict_get_def)

lemma map_of_update_other:
  "k' \<noteq> k \<Longrightarrow> map_of (AList.update k v al) k' = map_of al k'"
  by (simp add: update_conv')

lemma fired_of_update_other:
  "k \<noteq> ''fired'' \<Longrightarrow> fired_of (AList.update k v state) = fired_of state"
  by (simp add: fired_of_def update_conv')

lemma is_fired_update_other:
  "k \<noteq> ''fired'' \<Longrightarrow> is_fired (AList.update k v state) key = is_fired state key"
  by (simp add: is_fired_def fired_of_update_other)

lemma mark_fired_dict:
  "fired_of state = JObj f \<Longrightarrow>
   mark_fired state key = Inr (AList.update ''fired'' (JObj (AList.update key (JBool True) f)) state)"
  by (simp add: mark_fired_def)

lemma state_after_fire_dict:
  "fired_of state = JObj f \<Longrightarrow>
   state_after_fire P state key =
     AList.update ''last_fire_at'' (JStr (poll_ts P))
       (AList.update ''fired'' (JObj (AList.update key (JBool True) f)) state)"
  by (simp add: state_after_fire_def mark_fired_dict)

lemma fired_of_state_after_fire:
  "fired_of state = JObj f \<Longrightarrow>
   fired_of (state_after_fire P state key) = JObj (AList.update key (JBool True) f)"
  by (simp add: state_after_fire_dict fired_of_update_other) (simp add: fired_of_def update_conv')

lemma is_fired_state_after_fire:
  "fired_of state = JObj f \<Longrightarrow> is_fired (state_after_fire P state key) key"
  by (simp add: is_fired_def fired_of_state_after_fire dict_get_def update_conv')

lemma is_fired_mono:
  "fired_of state = JObj f \<Longrightarrow> is_fired state k \<Longrightarrow> is_fired (state_after_fire P state key) k"
  by (simp add: is_fired_def fired_of_state_after_fire dict_get_def update_conv')

lemma map_of_state_after_fire:
  "fired_of state = JObj f \<Longrightarrow> k \<noteq> ''fired'' \<Longrightarrow> k \<noteq> ''last_fire_at'' \<Longrightarrow>
   map_of (state_after_fire P state key) k = map_of state k"
  by (simp add: state_after_fire_dict update_conv')

lemma trigger_id_keys:
  "trigger_id (Touch (fmt_2f lv)) = touch_key lv"
  "trigger_id (Break (fmt_2f bd)) = break_key bd"
  "trigger_id (Cross rel) = cross_key rel"
  by (simp_all add: touch_key_def break_key_def cross_key_def)

subsection \<open>fire\<close>

lemma fire_unfired:
  assumes "dict_get (fired_of state) (trigger_id k) JNull = Inr v" and "\<not> truthy v"
  shows "fire P (trigger_id k) (alert P k) state w =
     (if send_result (p_env P) = CannotLaunch then Inl OSError
      else Inr (state_after_fire P state (trigger_id k)),
      fired_world P state k w)"
proof -
  from assms(1) obtain f where f: "fired_of state = JObj f"
    by (auto dest: dict_get_JObj)
  show ?thesis
    using assms f
    by (simp add: fire_def mark_fired_dict state_after_fire_dict fired_world_def
                  send_message_def Let_def)
qed

subsection \<open>The steps\<close>

lemma first_touch_Some:
  "first_touch price fired lvs = Inr (Some lv) \<Longrightarrow>
   lv \<in> set lvs \<and> lv \<le> price
   \<and> (\<exists>v. dict_get fired (touch_key lv) JNull = Inr v \<and> \<not> truthy v)"
  by (induction lvs) (auto split: if_splits sum.splits)

lemma touch_step_cases:
  assumes "touch_step B P state w = (r, w')"
  shows "(r = Inr Continue \<and> w' = w)
    \<or> (\<exists>e. r = Inl e \<and> w' = w)
    \<or> (\<exists>k v. dict_get (fired_of state) (trigger_id k) JNull = Inr v \<and> \<not> truthy v
          \<and> w' = fired_world P state k w
          \<and> r = (if send_result (p_env P) = CannotLaunch then Inl OSError else Inr Return))"
proof (cases "first_touch (q_price (p_quote P)) (fired_of state)
                (resolve_levels B (p_cfg P) (levels (p_args P)))")
  case (Inl e)
  with assms show ?thesis by (auto simp: touch_step_def)
next
  case (Inr found)
  show ?thesis
  proof (cases found)
    case None
    with Inr assms show ?thesis by (auto simp: touch_step_def)
  next
    case (Some lv)
    with Inr first_touch_Some obtain v where
      v: "dict_get (fired_of state) (trigger_id (Touch (fmt_2f lv))) JNull = Inr v" "\<not> truthy v"
      by (metis trigger_id_keys(1))
    from fire_unfired [OF v, of P w, unfolded trigger_id_keys] assms Inr Some
    have "w' = fired_world P state (Touch (fmt_2f lv)) w
          \<and> r = (if send_result (p_env P) = CannotLaunch then Inl OSError else Inr Return)"
      by (auto simp: touch_step_def split: if_splits)
    with v show ?thesis by blast
  qed
qed

lemma breakdown_step_cases:
  assumes "breakdown_step B P state w = (r, w')"
  shows "(r = Inr Continue \<and> w' = w)
    \<or> (\<exists>e. r = Inl e \<and> w' = w)
    \<or> (\<exists>k v. dict_get (fired_of state) (trigger_id k) JNull = Inr v \<and> \<not> truthy v
          \<and> w' = fired_world P state k w
          \<and> r = (if send_result (p_env P) = CannotLaunch then Inl OSError else Inr Return))"
proof (cases "resolve_breakdown B (p_cfg P) (breakdown (p_args P))")
  case (Inl e)
  with assms show ?thesis by (auto simp: breakdown_step_def)
next
  case (Inr bd)
  show ?thesis
  proof (cases "q_price (p_quote P) < bd")
    case False
    with Inr assms show ?thesis by (auto simp: breakdown_step_def)
  next
    case True
    show ?thesis
    proof (cases "dict_get (fired_of state) (break_key bd) JNull")
      case (Inl e)
      with Inr True assms show ?thesis by (auto simp: breakdown_step_def)
    next
      case got: (Inr v)
      show ?thesis
      proof (cases "truthy v")
        case True
        with got Inr \<open>q_price (p_quote P) < bd\<close> assms show ?thesis
          by (auto simp: breakdown_step_def)
      next
        case False
        from got have v: "dict_get (fired_of state) (trigger_id (Break (fmt_2f bd))) JNull = Inr v"
          by (simp add: break_key_def)
        from fire_unfired [OF v False, of P w, unfolded trigger_id_keys] assms Inr got False \<open>q_price (p_quote P) < bd\<close>
        have "w' = fired_world P state (Break (fmt_2f bd)) w
          \<and> r = (if send_result (p_env P) = CannotLaunch then Inl OSError else Inr Return)"
          by (auto simp: breakdown_step_def split: if_splits)
        with v False show ?thesis by blast
      qed
    qed
  qed
qed

lemma vwap_step_cases:
  assumes "vwap_step P state w = (r, w')"
  shows "(\<exists>e. r = Inl e \<and> w' = w)
    \<or> (r = Inr () \<and> quiet_outcome P state w w')
    \<or> (\<exists>k v. dict_get (fired_of state) (trigger_id k) JNull = Inr v \<and> \<not> truthy v
          \<and> fired_outcome P state k w w'
          \<and> r = (if send_result (p_env P) = CannotLaunch then Inl OSError else Inr ()))"
proof (cases "dict_get (p_cfg P) ''vwap_cross'' (JBool True)")
  case (Inl e)
  with assms show ?thesis by (auto simp: vwap_step_def)
next
  case (Inr enabled)
  show ?thesis
  proof (cases "relation_of (q_price (p_quote P)) (p_vwap P)")
    case None
    with Inr assms show ?thesis by (auto simp: vwap_step_def quiet_outcome_def)
  next
    case (Some rel)
    show ?thesis
    proof (cases "truthy enabled \<and> vwap_available (p_vwap P) \<and> rel \<in> set [''above'', ''below'']")
      case False
      with Inr Some assms show ?thesis by (auto simp: vwap_step_def quiet_outcome_def)
    next
      case True
      let ?last = "case map_of state ''vwap_rel'' of Some v \<Rightarrow> v | None \<Rightarrow> JNull"
      show ?thesis
      proof (cases "truthy ?last \<and> ?last \<noteq> JStr rel")
        case False
        with Inr Some True assms show ?thesis
          by (auto simp: vwap_step_def quiet_outcome_def dict_get_def)
      next
        case cross: True
        show ?thesis
        proof (cases "dict_get (fired_of state) (cross_key rel) JNull")
          case (Inl e)
          with Inr Some True cross assms show ?thesis
            by (auto simp: vwap_step_def dict_get_def)
        next
          case got: (Inr v)
          show ?thesis
          proof (cases "truthy v")
            case True
            with got Inr Some \<open>truthy enabled \<and> vwap_available (p_vwap P) \<and> rel \<in> set [''above'', ''below'']\<close>
              cross assms show ?thesis
              by (auto simp: vwap_step_def quiet_outcome_def dict_get_def)
          next
            case False
            from got have v: "dict_get (fired_of state) (trigger_id (Cross rel)) JNull = Inr v"
              by (simp add: cross_key_def)
            from fire_unfired [OF v False, of P w, unfolded trigger_id_keys] assms Inr Some got False cross
              \<open>truthy enabled \<and> vwap_available (p_vwap P) \<and> rel \<in> set [''above'', ''below'']\<close>
            have "fired_outcome P state (Cross rel) w w'
              \<and> r = (if send_result (p_env P) = CannotLaunch then Inl OSError else Inr ())"
              by (auto simp: vwap_step_def fired_outcome_def dict_get_def trigger_id_keys
                       simp del: trigger_id.simps split: if_splits)
            with v False show ?thesis by blast
          qed
        qed
      qed
    qed
  qed
qed

lemma evaluate_cases:
  assumes "evaluate B P state w = (r, w')"
  shows "(\<exists>e. r = Inl e \<and> w' = w)
    \<or> (r = Inr () \<and> quiet_outcome P state w w')
    \<or> (\<exists>k v. dict_get (fired_of state) (trigger_id k) JNull = Inr v \<and> \<not> truthy v
          \<and> fired_outcome P state k w w'
          \<and> r = (if send_result (p_env P) = CannotLaunch then Inl OSError else Inr ()))"
proof -
  obtain r1 w1 where t: "touch_step B P state w = (r1, w1)"
    by (cases "touch_step B P state w")
  obtain r2 w2 where b: "breakdown_step B P state w = (r2, w2)"
    by (cases "breakdown_step B P state w")
  obtain r3 w3 where c: "vwap_step P state w = (r3, w3)"
    by (cases "vwap_step P state w")
  from touch_step_cases [OF t] show ?thesis
  proof (elim disjE exE conjE)
    fix e assume "r1 = Inl e" "w1 = w"
    with t assms show ?thesis by (auto simp: evaluate_def)
  next
    fix k v
    assume "dict_get (fired_of state) (trigger_id k) JNull = Inr v" "\<not> truthy v"
      "w1 = fired_world P state k w"
      "r1 = (if send_result (p_env P) = CannotLaunch then Inl OSError else Inr Return)"
    with t assms show ?thesis
      by (auto simp: evaluate_def fired_outcome_def split: if_splits)
  next
    assume t1: "r1 = Inr Continue" "w1 = w"
    from breakdown_step_cases [OF b] show ?thesis
    proof (elim disjE exE conjE)
      fix e assume "r2 = Inl e" "w2 = w"
      with t t1 b assms show ?thesis by (auto simp: evaluate_def)
    next
      fix k v
      assume "dict_get (fired_of state) (trigger_id k) JNull = Inr v" "\<not> truthy v"
        "w2 = fired_world P state k w"
        "r2 = (if send_result (p_env P) = CannotLaunch then Inl OSError else Inr Return)"
      with t t1 b assms show ?thesis
        by (auto simp: evaluate_def fired_outcome_def split: if_splits)
    next
      assume "r2 = Inr Continue" "w2 = w"
      with t t1 b c assms have "r3 = r" "w3 = w'" by (simp_all add: evaluate_def)
      with vwap_step_cases [OF c] show ?thesis by simp
    qed
  qed
qed

subsection \<open>Traces\<close>

lemma sent_append: "sent (xs @ ys) = sent xs @ sent ys"
  by (induction xs rule: sent.induct) simp_all

lemma new_events_append: "trace w' = trace w @ xs \<Longrightarrow> new_events w w' = xs"
  by (simp add: new_events_def)

lemma load_config_trace:
  "\<exists>xs. trace (snd (load_config a w)) = trace w @ xs \<and> sent xs = []"
  by (auto simp: load_config_def emit_def split: option.splits content.splits)

lemma polled_world_trace:
  "\<exists>xs. trace (polled_world a q w) = trace w @ xs \<and> sent xs = []"
proof -
  from load_config_trace [of a w] obtain xs where
    "trace (snd (load_config a w)) = trace w @ xs" "sent xs = []" by blast
  then show ?thesis
    by (simp add: polled_world_def emit_def sent_append)
qed

lemma polled_world_fs: "fs (polled_world a q w) = fs w"
  by (simp add: polled_world_def emit_def load_config_fs)

lemma quiet_outcome_trace:
  "quiet_outcome P state w0 w' \<Longrightarrow> \<exists>xs. trace w' = trace w0 @ xs \<and> sent xs = []"
  by (auto simp: quiet_outcome_def save_state_def emit_def)

lemma fired_outcome_trace:
  assumes "fired_outcome P state k w0 w'"
  shows "\<exists>post. trace w' =
            trace w0 @ [WriteFile (p_path P) (JObj (state_after_fire P state (trigger_id k))),
                        SendMessage (channel (p_args P)) (target (p_args P)) (alert P k)] @ post
          \<and> sent post = []"
  using assms
  by (auto simp: fired_outcome_def fired_world_def save_state_def emit_def
           simp del: trigger_id.simps)

lemma fired_outcome_file:
  assumes "fired_outcome P state k w0 w'" and "fired_of state = JObj f"
  shows "\<exists>st. fs w' (p_path P) = Some (Doc (JObj st))
          \<and> is_fired st (trigger_id k)
          \<and> map_of st ''date'' = map_of state ''date''
          \<and> map_of st ''fired'' \<noteq> None"
proof -
  let ?s = "state_after_fire P state (trigger_id k)"
  have s: "is_fired ?s (trigger_id k)" "map_of ?s ''date'' = map_of state ''date''"
    "map_of ?s ''fired'' \<noteq> None"
    using assms(2)
    by (simp_all add: is_fired_state_after_fire map_of_state_after_fire)
       (simp add: state_after_fire_dict update_conv')
  from assms(1) consider "w' = fired_world P state k w0"
    | rel where "w' = save_state (p_path P) (AList.update ''vwap_rel'' (JStr rel) ?s)
                        (fired_world P state k w0)"
    by (auto simp: fired_outcome_def)
  then show ?thesis
  proof cases
    case 1
    with s show ?thesis
      by (simp add: fired_world_def save_state_def emit_def del: trigger_id.simps)
  next
    case 2
    with s show ?thesis
      by (simp add: fired_world_def save_state_def emit_def is_fired_update_other update_conv'
               del: trigger_id.simps)
  qed
qed

subsection \<open>main\<close>

lemma mk_poll_fields:
  "p_path (mk_poll B a E cfg q) = state_path_of a (q_date q)"
  "p_args (mk_poll B a E cfg q) = a"
  "p_env (mk_poll B a E cfg q) = E"
  "p_quote (mk_poll B a E cfg q) = q"
  "p_cfg (mk_poll B a E cfg q) = cfg"
  by (simp_all add: mk_poll_def)

lemma main_cases_disj:
  assumes "main B a E w = (r, w')"
  shows "(\<exists>xs. trace w' = trace w @ xs \<and> sent xs = [] \<and> fs w' = fs w)
    \<or> (\<exists>q state.
          is_trading_time (now_weekday E) (now_time E)
          \<and> quote_response E = Inr q
          \<and> reset_state (q_date q) (fst (load_state (state_path_of a (q_date q)) w)) = Inr state
          \<and> ((r = Inr ()
               \<and> quiet_outcome (mk_poll B a E (fst (load_config a w)) q) state
                    (polled_world a q w) w')
             \<or> (\<exists>k v. dict_get (fired_of state) (trigger_id k) JNull = Inr v \<and> \<not> truthy v
                   \<and> fired_outcome (mk_poll B a E (fst (load_config a w)) q) state k
                        (polled_world a q w) w'
                   \<and> r = (if send_result E = CannotLaunch then Inl OSError else Inr ()))))"
proof (cases "is_trading_time (now_weekday E) (now_time E)")
  case False
  with assms show ?thesis by (auto simp: main_def)
next
  case True
  show ?thesis
  proof (cases "quote_response E")
    case (Inl e)
    with True assms load_config_trace [of a w] load_config_fs [of a w] show ?thesis
      by (auto simp: main_def fetch_sina_quote_def emit_def sent_append split: prod.splits)
  next
    case (Inr q)
    note open_market = main_open_market [OF True Inr, of B a w]
    let ?P = "mk_poll B a E (fst (load_config a w)) q"
    show ?thesis
    proof (cases "reset_state (q_date q) (fst (load_state (state_path_of a (q_date q)) w))")
      case (Inl e)
      with open_market assms load_config_trace [of a w] load_config_fs [of a w] show ?thesis
        by (auto simp: emit_def sent_append)
    next
      case state: (Inr state)
      with open_market assms
      have ev: "evaluate B ?P state (polled_world a q w) = (r, w')" by simp
      from polled_world_trace [of a q w] obtain xs where
        xs: "trace (polled_world a q w) = trace w @ xs" "sent xs = []" by blast
      from evaluate_cases [OF ev] show ?thesis
      proof (elim disjE exE conjE)
        fix e assume "r = Inl e" "w' = polled_world a q w"
        with xs polled_world_fs [of a q w] show ?thesis by auto
      next
        assume "r = Inr ()" "quiet_outcome ?P state (polled_world a q w) w'"
        with True Inr state show ?thesis by blast
      next
        fix k v
        assume "dict_get (fired_of state) (trigger_id k) JNull = Inr v" "\<not> truthy v"
          "fired_outcome ?P state k (polled_world a q w) w'"
          "r = (if send_result (p_env ?P) = CannotLaunch then Inl OSError else Inr ())"
        with True Inr state show ?thesis
          by (simp add: mk_poll_fields del: trigger_id.simps) blast
      qed
    qed
  qed
qed

lemma main_cases:
  assumes "main B a E w = (r, w')"
  obtains (silent) xs where "trace w' = trace w @ xs" "sent xs = []" "fs w' = fs w"
  | (quiet) q state where
      "is_trading_time (now_weekday E) (now_time E)" "quote_response E = Inr q"
      "reset_state (q_date q) (fst (load_state (state_path_of a (q_date q)) w)) = Inr state"
      "r = Inr ()"
      "quiet_outcome (mk_poll B a E (fst (load_config a w)) q) state (polled_world a q w) w'"
  | (fired) q state k v where
      "is_trading_time (now_weekday E) (now_time E)" "quote_response E = Inr q"
      "reset_state (q_date q) (fst (load_state (state_path_of a (q_date q)) w)) = Inr state"
      "dict_get (fired_of state) (trigger_id k) JNull = Inr v" "\<not> truthy v"
      "fired_outcome (mk_poll B a E (fst (load_config a w)) q) state k (polled_world a q w) w'"
      "r = (if send_result E = CannotLaunch then Inl OSError else Inr ())"
  using main_cases_disj [OF assms] that by blast

lemma alert_kind: "m_kind (alert P k) = k"
  by (simp add: alert_def)

lemma reset_state_date:
  assumes "reset_state day loaded = Inr state"
  shows "map_of state ''date'' = Some (JStr day) \<and> map_of state ''fired'' \<noteq> None"
proof -
  from assms obtain d where d: "dict_get loaded ''date'' JNull = Inr d"
    by (auto simp: reset_state_def split: sum.splits)
  then obtain kvs where kvs: "loaded = JObj kvs"
    by (auto dest: dict_get_JObj)
  show ?thesis
  proof (cases "d = JStr day")
    case False
    with assms d show ?thesis
      by (auto simp: reset_state_def fresh_state_def setdefault_def)
  next
    case True
    with d kvs have "map_of kvs ''date'' = Some (JStr day)"
      by (auto simp: dict_get_def split: option.splits)
    with assms d kvs True show ?thesis
      by (auto simp: reset_state_def setdefault_def map_add_def split: option.splits)
  qed
qed

lemma reset_state_same:
  "map_of st ''date'' = Some (JStr day) \<Longrightarrow> map_of st ''fired'' \<noteq> None \<Longrightarrow>
   reset_state day (JObj st) = Inr st"
  by (auto simp: reset_state_def dict_get_def setdefault_def)

lemma main_sent:
  assumes "main B a E w = (r, w')"
  shows "sent (new_events w w') = []
    \<or> (\<exists>q state k v st pre post.
          quote_response E = Inr q
          \<and> reset_state (q_date q) (fst (load_state (state_path_of a (q_date q)) w)) = Inr state
          \<and> dict_get (fired_of state) (trigger_id k) JNull = Inr v \<and> \<not> truthy v
          \<and> new_events w w' =
              pre @ [WriteFile (state_path_of a (q_date q))
                       (JObj (state_after_fire (mk_poll B a E (fst (load_config a w)) q) state
                                (trigger_id k))),
                     SendMessage (channel a) (target a)
                       (alert (mk_poll B a E (fst (load_config a w)) q) k)] @ post
          \<and> sent pre = [] \<and> sent post = []
          \<and> fs w' (state_path_of a (q_date q)) = Some (Doc (JObj st))
          \<and> is_fired st (trigger_id k)
          \<and> map_of st ''date'' = Some (JStr (q_date q))
          \<and> map_of st ''fired'' \<noteq> None
          \<and> r = (if send_result E = CannotLaunch then Inl OSError else Inr ()))"
  using assms
proof (cases rule: main_cases)
  case (silent xs)
  then show ?thesis by (simp add: new_events_append)
next
  case (quiet q state)
  with quiet_outcome_trace polled_world_trace [of a q w] show ?thesis
    by (fastforce simp: new_events_def sent_append)
next
  case (fired q state k v)
  let ?P = "mk_poll B a E (fst (load_config a w)) q"
  note st = fired(3) and out = fired(6)
  from fired(4) obtain f where f: "fired_of state = JObj f"
    by (auto dest: dict_get_JObj)
  from polled_world_trace [of a q w] obtain pre where
    pre: "trace (polled_world a q w) = trace w @ pre" "sent pre = []" by blast
  from fired_outcome_trace [OF out] obtain post where
    post: "trace w' = trace (polled_world a q w)
             @ [WriteFile (p_path ?P) (JObj (state_after_fire ?P state (trigger_id k))),
                SendMessage (channel (p_args ?P)) (target (p_args ?P)) (alert ?P k)] @ post"
      "sent post = []" by blast
  from fired_outcome_file [OF out f] obtain st' where
    st': "fs w' (p_path ?P) = Some (Doc (JObj st'))" "is_fired st' (trigger_id k)"
      "map_of st' ''date'' = map_of state ''date''" "map_of st' ''fired'' \<noteq> None" by blast
  from pre post have
    "new_events w w' = pre @ [WriteFile (state_path_of a (q_date q))
                       (JObj (state_after_fire ?P state (trigger_id k))),
                     SendMessage (channel a) (target a) (alert ?P k)] @ post"
    by (simp add: new_events_def mk_poll_fields del: trigger_id.simps)
  with fired pre(2) post(2) st' reset_state_date [OF st] show ?thesis
    by (simp add: mk_poll_fields del: trigger_id.simps) blast
qed

subsection \<open>Two polls at the same price\<close>

lemma first_poll:
  "main sample_builtins cli (monday_poll 10.05) empty_world = (Inr (), first_world)"
  by (simp add: model_defs sample_defs world_defs Let_def)

lemma first_poll_cannot_launch:
  "main sample_builtins cli ((monday_poll 10.05)\<lparr>send_result := CannotLaunch\<rparr>) empty_world
     = (Inl OSError, first_world)"
  by (simp add: model_defs sample_defs world_defs Let_def)

lemma second_poll:
  "main sample_builtins cli (monday_poll 10.05) first_world = (Inr (), second_world)"
  by (simp add: model_defs sample_defs world_defs Let_def)

lemma sample_events:
  "new_events empty_world first_world = first_events"
  "new_events first_world second_world = second_events"
  "sent first_events = [touch_alert ''10.00'']"
  "sent second_events = [touch_alert ''10.03'']"
  by (simp_all add: new_events_def empty_world_def first_world_def second_world_def
                    first_events_def second_events_def)

subsection \<open>Persist, then notify; no trigger id twice\<close>

text \<open>
  Claim C1. Whenever a run sends a notification, the events it adds to the trace are:
  events without a message, then the write of the state file with the trigger id of the
  message marked fired, immediately followed by the message, then events without a
  message. At the end of the run the state file still holds that mark, whether the send
  command ran, exited with an error status or could not be started; in the last case the
  exception leaves \<open>main\<close>, and in every case the process exits with status 0.
\<close>

theorem persist_before_notify:
  assumes "main B a E w = (r, w')" and "sent (new_events w w') \<noteq> []"
  shows "\<exists>q pre st m post.
      quote_response E = Inr q
      \<and> new_events w w' =
          pre @ [WriteFile (state_path_of a (q_date q)) (JObj st),
                 SendMessage (channel a) (target a) m] @ post
      \<and> sent pre = [] \<and> sent post = []
      \<and> is_fired st (trigger_id (m_kind m))
      \<and> file_marked w' (state_path_of a (q_date q)) (trigger_id (m_kind m))
      \<and> (r = Inr () \<or> r = Inl OSError \<and> send_result E = CannotLaunch)
      \<and> script B a E w = (Exit 0, w')"
proof -
  let ?P = "\<lambda>q. mk_poll B a E (fst (load_config a w)) q"
  from main_sent [OF assms(1)] assms(2) obtain q state k v st pre post where
    q: "quote_response E = Inr q"
    and v: "dict_get (fired_of state) (trigger_id k) JNull = Inr v"
    and ev: "new_events w w' =
              pre @ [WriteFile (state_path_of a (q_date q))
                       (JObj (state_after_fire (?P q) state (trigger_id k))),
                     SendMessage (channel a) (target a) (alert (?P q) k)] @ post"
      "sent pre = []" "sent post = []"
    and saved: "fs w' (state_path_of a (q_date q)) = Some (Doc (JObj st))"
      "is_fired st (trigger_id k)"
    and r: "r = (if send_result E = CannotLaunch then Inl OSError else Inr ())"
    by blast
  from v obtain f where "fired_of state = JObj f"
    by (auto dest: dict_get_JObj)
  then have marked: "is_fired (state_after_fire (?P q) state (trigger_id k)) (trigger_id k)"
    by (rule is_fired_state_after_fire)
  from saved have fm: "file_marked w' (state_path_of a (q_date q)) (trigger_id k)"
    by (simp add: file_marked_def marked_def del: trigger_id.simps)
  have ex: "script B a E w = (Exit 0, w')"
    using assms(1) by (simp add: script_def split: sum.splits)
  from r have r': "r = Inr () \<or> r = Inl OSError \<and> send_result E = CannotLaunch"
    by (simp split: if_splits)
  show ?thesis
    using q ev marked fm r' ex
    by (intro exI [of _ q] exI [of _ pre] exI [of _ post] exI [of _ "alert (?P q) k"]
              exI [of _ "state_after_fire (?P q) state (trigger_id k)"])
       (simp add: alert_kind del: trigger_id.simps)
qed

text \<open>
  Claim C1, witness: the first poll at 10.05 when the send command cannot be started.
  The state with the mark is written before the message, \<open>main\<close> raises \<open>OSError\<close>, the
  file keeps the mark and the process exits with status 0.
\<close>

theorem persist_before_notify_witness:
  "main sample_builtins cli ((monday_poll 10.05)\<lparr>send_result := CannotLaunch\<rparr>) empty_world
     = (Inl OSError, first_world)
   \<and> sent (new_events empty_world first_world) \<noteq> []
   \<and> (\<exists>q pre st m post.
        quote_response ((monday_poll 10.05)\<lparr>send_result := CannotLaunch\<rparr>) = Inr q
        \<and> new_events empty_world first_world =
            pre @ [WriteFile (state_path_of cli (q_date q)) (JObj st),
                   SendMessage (channel cli) (target cli) m] @ post
        \<and> sent pre = [] \<and> sent post = []
        \<and> is_fired st (trigger_id (m_kind m))
        \<and> file_marked first_world (state_path_of cli (q_date q)) (trigger_id (m_kind m)))
   \<and> file_marked first_world state_file ''touch_up_10.00''
   \<and> script sample_builtins cli ((monday_poll 10.05)\<lparr>send_result := CannotLaunch\<rparr>) empty_world
       = (Exit 0, first_world)"
proof -
  have sent: "sent (new_events empty_world first_world) \<noteq> []"
    by (simp add: sample_events)
  have fm: "file_marked first_world state_file ''touch_up_10.00''"
    by (simp add: file_marked_def marked_def is_fired_def fired_of_def dict_get_def world_defs)
  from persist_before_notify [OF first_poll_cannot_launch sent] first_poll_cannot_launch sent fm
  show ?thesis by blast
qed

text \<open>
  Claim C2, as amended. Two runs in sequence on the same arguments and the same quote,
  the second starting from the world the first one left: each run sends at most one
  message, and a message of the second run is never for the trigger id of a message of
  the first. (The two runs may send two messages, for different trigger ids.)
\<close>

theorem no_repeat_across_polls:
  assumes "main B a E w = (r1, w1)" and "main B a E' w1 = (r2, w2)"
    and "quote_response E' = quote_response E"
  shows "length (sent (new_events w w1)) \<le> 1 \<and> length (sent (new_events w1 w2)) \<le> 1
    \<and> (\<forall>m1 m2. m1 \<in> set (sent (new_events w w1)) \<and> m2 \<in> set (sent (new_events w1 w2))
          \<longrightarrow> trigger_id (m_kind m1) \<noteq> trigger_id (m_kind m2))"
proof -
  have one: "length (sent (new_events u u')) \<le> 1" if "main B a F u = (r, u')" for F u u' r
    using main_sent [OF that] by (auto simp: sent_append)
  have distinct: "trigger_id (m_kind m1) \<noteq> trigger_id (m_kind m2)"
    if m1: "m1 \<in> set (sent (new_events w w1))" and m2: "m2 \<in> set (sent (new_events w1 w2))"
    for m1 m2
  proof -
    from main_sent [OF assms(1)] m1 obtain q state k v st pre post where
      q: "quote_response E = Inr q"
      and ev1: "new_events w w1 =
              pre @ [WriteFile (state_path_of a (q_date q))
                       (JObj (state_after_fire (mk_poll B a E (fst (load_config a w)) q) state
                                (trigger_id k))),
                     SendMessage (channel a) (target a)
                       (alert (mk_poll B a E (fst (load_config a w)) q) k)] @ post"
        "sent pre = []" "sent post = []"
      and saved: "fs w1 (state_path_of a (q_date q)) = Some (Doc (JObj st))"
        "is_fired st (trigger_id k)" "map_of st ''date'' = Some (JStr (q_date q))"
        "map_of st ''fired'' \<noteq> None"
      by fastforce
    from ev1 m1 have k1: "m_kind m1 = k" by (simp add: sent_append alert_kind)
    from saved(1) have loaded: "fst (load_state (state_path_of a (q_date q)) w1) = JObj st"
      by (simp add: load_state_def)
    from main_sent [OF assms(2)] m2 assms(3) q obtain state2 k2 v2 pre2 post2 where
      st2: "reset_state (q_date q) (fst (load_state (state_path_of a (q_date q)) w1)) = Inr state2"
      and v2: "dict_get (fired_of state2) (trigger_id k2) JNull = Inr v2" "\<not> truthy v2"
      and ev2: "new_events w1 w2 =
              pre2 @ [WriteFile (state_path_of a (q_date q))
                       (JObj (state_after_fire (mk_poll B a E' (fst (load_config a w1)) q) state2
                                (trigger_id k2))),
                     SendMessage (channel a) (target a)
                       (alert (mk_poll B a E' (fst (load_config a w1)) q) k2)] @ post2"
        "sent pre2 = []" "sent post2 = []"
      by fastforce
    from ev2 m2 have k2: "m_kind m2 = k2" by (simp add: sent_append alert_kind)
    from st2 loaded reset_state_same [OF saved(3,4)] have "state2 = st" by simp
    with v2 have "\<not> is_fired st (trigger_id k2)"
      by (simp add: is_fired_def del: trigger_id.simps)
    with saved(2) have "trigger_id k \<noteq> trigger_id k2" by auto
    with k1 k2 show ?thesis by simp
  qed
  from one [OF assms(1)] one [OF assms(2)] distinct show ?thesis by blast
qed

text \<open>
  Claim C2, witness: the two polls at 10.05 from the world with no files send the alerts
  for 10.00 and for 10.03, one each, for different trigger ids.
\<close>

theorem no_repeat_across_polls_witness:
  "main sample_builtins cli (monday_poll 10.05) empty_world = (Inr (), first_world)
   \<and> main sample_builtins cli (monday_poll 10.05) first_world = (Inr (), second_world)
   \<and> touch_alert ''10.00'' \<in> set (sent (new_events empty_world first_world))
   \<and> touch_alert ''10.03'' \<in> set (sent (new_events first_world second_world))
   \<and> trigger_id (m_kind (touch_alert ''10.00'')) \<noteq> trigger_id (m_kind (touch_alert ''10.03''))
   \<and> length (sent (new_events empty_world first_world)) \<le> 1
   \<and> length (sent (new_events first_world second_world)) \<le> 1"
proof -
  have m: "touch_alert ''10.00'' \<in> set (sent (new_events empty_world first_world))"
    "touch_alert ''10.03'' \<in> set (sent (new_events first_world second_world))"
    by (simp_all add: sample_events)
  from no_repeat_across_polls [OF first_poll second_poll refl] m first_poll second_poll
  show ?thesis by blast
qed

text \<open>
  Claim C2 as stated fails: with the default levels 10.00 and 10.03 and a price of 10.05,
  the first poll sends the alert for 10.00 and the second poll, on the same inputs and
  from the state the first one saved, sends the alert for 10.03; that is two
  notifications across both calls.
\<close>

theorem two_polls_two_alerts_counterexample:
  "main sample_builtins cli (monday_poll 10.05) empty_world = (Inr (), first_world)
   \<and> main sample_builtins cli (monday_poll 10.05) first_world = (Inr (), second_world)
   \<and> sent (new_events empty_world first_world) = [touch_alert ''10.00'']
   \<and> sent (new_events first_world second_world) = [touch_alert ''10.03'']
   \<and> length (sent (new_events empty_world first_world)
               @ sent (new_events first_world second_world)) = 2"
  using first_poll second_poll by (simp add: sample_events)

subsection \<open>The upside loop on ascending levels\<close>

lemma first_touch_find:
  "first_touch price (JObj f) lvs =
     Inr (find (\<lambda>lv. lv \<le> price
                    \<and> \<not> truthy (case map_of f (touch_key lv) of Some v \<Rightarrow> v | None \<Rightarrow> JNull)) lvs)"
  by (induction lvs) (simp_all add: dict_get_def)

lemma find_sorted_Min:
  fixes xs :: "real list"
  assumes "sorted xs" and "x \<in> set xs" and "Q x"
  shows "find Q xs = Some (Min {y \<in> set xs. Q y})"
  using assms
proof (induction xs)
  case Nil
  then show ?case by simp
next
  case (Cons a xs)
  show ?case
  proof (cases "Q a")
    case True
    have "Min {y \<in> set (a # xs). Q y} = a"
    proof (rule Min_eqI)
      show "finite {y \<in> set (a # xs). Q y}" by simp
      show "a \<in> {y \<in> set (a # xs). Q y}" using True by simp
      fix y assume "y \<in> {y \<in> set (a # xs). Q y}"
      with Cons.prems(1) show "a \<le> y" by auto
    qed
    with True show ?thesis by simp
  next
    case False
    with Cons.prems have x: "x \<in> set xs" by auto
    from False have "{y \<in> set (a # xs). Q y} = {y \<in> set xs. Q y}" by auto
    with False Cons.IH [OF _ x Cons.prems(3)] Cons.prems(1) show ?thesis by simp
  qed
qed

lemma is_fired_dict:
  "fired_of state = JObj f \<Longrightarrow>
   is_fired state key = truthy (case map_of f key of Some v \<Rightarrow> v | None \<Rightarrow> JNull)"
  by (simp add: is_fired_def dict_get_def)

lemma touch_step_lowest:
  assumes f: "fired_of state = JObj f"
    and sorted: "sorted (resolve_levels B (p_cfg P) (levels (p_args P)))"
    and lv: "lv \<in> set (resolve_levels B (p_cfg P) (levels (p_args P)))"
      "lv \<le> q_price (p_quote P)" "\<not> is_fired state (touch_key lv)"
  shows "touch_step B P state w =
     (if send_result (p_env P) = CannotLaunch then Inl OSError else Inr Return,
      fired_world P state
        (Touch (fmt_2f (Min {l \<in> set (resolve_levels B (p_cfg P) (levels (p_args P))).
                              l \<le> q_price (p_quote P) \<and> \<not> is_fired state (touch_key l)})))
        w)"
proof -
  let ?lvs = "resolve_levels B (p_cfg P) (levels (p_args P))"
  let ?Q = "\<lambda>l. l \<le> q_price (p_quote P) \<and> \<not> is_fired state (touch_key l)"
  let ?m = "Min {l \<in> set ?lvs. ?Q l}"
  have found: "first_touch (q_price (p_quote P)) (fired_of state) ?lvs = Inr (Some ?m)"
    using find_sorted_Min [of ?lvs lv ?Q, OF sorted lv(1)] lv(2,3) f
    by (simp add: first_touch_find is_fired_dict)
  from first_touch_Some [OF found] obtain v where
    v: "dict_get (fired_of state) (trigger_id (Touch (fmt_2f ?m))) JNull = Inr v" "\<not> truthy v"
    by (metis trigger_id_keys(1))
  from fire_unfired [OF v, of P w, unfolded trigger_id_keys] found
  show ?thesis
    by (simp add: touch_step_def)
qed

text \<open>
  Claim C3, as amended. On a poll in trading hours whose state has a \<open>fired\<close> map, when
  the resolved upside levels are listed in ascending order and the price has reached at
  least one level whose id has not fired, the run saves the state and sends exactly one
  message, for the lowest such level, and that is the last thing it does: no later
  trigger is evaluated. (The loop takes the levels in the order of the list and does not
  sort them.)
\<close>

theorem lowest_level_fires_alone:
  assumes "is_trading_time (now_weekday E) (now_time E)"
    and "quote_response E = Inr q"
    and "reset_state (q_date q) (fst (load_state (state_path_of a (q_date q)) w)) = Inr state"
    and "fired_of state = JObj f"
    and "sorted (resolve_levels B (fst (load_config a w)) (levels a))"
    and "lv \<in> set (resolve_levels B (fst (load_config a w)) (levels a))"
    and "lv \<le> q_price q"
    and "\<not> is_fired state (touch_key lv)"
  shows "main B a E w =
      (if send_result E = CannotLaunch then Inl OSError else Inr (),
       fired_world (mk_poll B a E (fst (load_config a w)) q) state
         (Touch (fmt_2f (Min {l \<in> set (resolve_levels B (fst (load_config a w)) (levels a)).
                               l \<le> q_price q \<and> \<not> is_fired state (touch_key l)})))
         (polled_world a q w))
    \<and> sent (new_events w (snd (main B a E w))) =
        [alert (mk_poll B a E (fst (load_config a w)) q)
           (Touch (fmt_2f (Min {l \<in> set (resolve_levels B (fst (load_config a w)) (levels a)).
                                 l \<le> q_price q \<and> \<not> is_fired state (touch_key l)})))]
    \<and> Min {l \<in> set (resolve_levels B (fst (load_config a w)) (levels a)).
             l \<le> q_price q \<and> \<not> is_fired state (touch_key l)} \<le> lv"
proof -
  let ?P = "mk_poll B a E (fst (load_config a w)) q"
  let ?C = "{l \<in> set (resolve_levels B (fst (load_config a w)) (levels a)).
             l \<le> q_price q \<and> \<not> is_fired state (touch_key l)}"
  let ?k = "Touch (fmt_2f (Min ?C))"
  have step: "touch_step B ?P state (polled_world a q w) =
     (if send_result E = CannotLaunch then Inl OSError else Inr Return,
      fired_world ?P state ?k (polled_world a q w))"
    using touch_step_lowest [of state f B ?P lv "polled_world a q w"] assms(4-8)
    by (simp add: mk_poll_fields)
  have run: "main B a E w =
      (if send_result E = CannotLaunch then Inl OSError else Inr (),
       fired_world ?P state ?k (polled_world a q w))"
    using main_open_market [OF assms(1,2), of B a w] assms(3) step
    by (simp add: evaluate_def)
  from polled_world_trace [of a q w] obtain pre where
    pre: "trace (polled_world a q w) = trace w @ pre" "sent pre = []" by blast
  have "trace (fired_world ?P state ?k (polled_world a q w)) =
      trace w @ pre @ [WriteFile (p_path ?P) (JObj (state_after_fire ?P state (trigger_id ?k))),
                       SendMessage (channel a) (target a) (alert ?P ?k)]"
    using pre(1) by (simp add: fired_world_def save_state_def emit_def mk_poll_fields
                          del: trigger_id.simps)
  then have sent: "sent (new_events w (fired_world ?P state ?k (polled_world a q w)))
      = [alert ?P ?k]"
    using pre(2) by (simp add: new_events_def sent_append)
  have low: "Min ?C \<le> lv"
    using assms(6-8) by (intro Min_le) auto
  from run sent low show ?thesis by simp
qed

text \<open>
  Claim C3, witness: the default levels 10.00 and 10.03, both reached at 10.05 and
  neither fired; the one message is for 10.00.
\<close>

theorem lowest_level_fires_alone_witness:
  "is_trading_time (now_weekday (monday_poll 10.05)) (now_time (monday_poll 10.05))
   \<and> quote_response (monday_poll 10.05) = Inr (quote_at 10.05)
   \<and> reset_state (q_date (quote_at 10.05))
        (fst (load_state (state_path_of cli (q_date (quote_at 10.05))) empty_world))
      = Inr (fresh_state ''2024-03-04'')
   \<and> fired_of (fresh_state ''2024-03-04'') = JObj []
   \<and> resolve_levels sample_builtins (fst (load_config cli empty_world)) (levels cli) = [10, 10.03]
   \<and> sorted (resolve_levels sample_builtins (fst (load_config cli empty_world)) (levels cli))
   \<and> 10.03 \<le> q_price (quote_at 10.05)
   \<and> \<not> is_fired (fresh_state ''2024-03-04'') (touch_key 10.03)
   \<and> \<not> is_fired (fresh_state ''2024-03-04'') (touch_key 10)
   \<and> sent (new_events empty_world
              (snd (main sample_builtins cli (monday_poll 10.05) empty_world))) =
        [alert (mk_poll sample_builtins cli (monday_poll 10.05) (fst (load_config cli empty_world))
                  (quote_at 10.05))
           (Touch (fmt_2f (Min {l \<in> set (resolve_levels sample_builtins
                                            (fst (load_config cli empty_world)) (levels cli)).
                                 l \<le> q_price (quote_at 10.05)
                                 \<and> \<not> is_fired (fresh_state ''2024-03-04'') (touch_key l)})))]
   \<and> sent (new_events empty_world
              (snd (main sample_builtins cli (monday_poll 10.05) empty_world))) =
        [touch_alert ''10.00'']"
proof -
  have lvs: "resolve_levels sample_builtins (fst (load_config cli empty_world)) (levels cli)
      = [10, 10.03]"
    by (simp add: model_defs sample_defs)
  have h: "is_trading_time (now_weekday (monday_poll 10.05)) (now_time (monday_poll 10.05))"
    "quote_response (monday_poll 10.05) = Inr (quote_at 10.05)"
    "reset_state (q_date (quote_at 10.05))
        (fst (load_state (state_path_of cli (q_date (quote_at 10.05))) empty_world))
      = Inr (fresh_state ''2024-03-04'')"
    "fired_of (fresh_state ''2024-03-04'') = JObj []"
    by (simp_all add: model_defs sample_defs)
  have s: "sorted (resolve_levels sample_builtins (fst (load_config cli empty_world)) (levels cli))"
    "10.03 \<in> set (resolve_levels sample_builtins (fst (load_config cli empty_world)) (levels cli))"
    by (simp_all add: lvs)
  have p: "10.03 \<le> q_price (quote_at 10.05)"
    "\<not> is_fired (fresh_state ''2024-03-04'') (touch_key 10.03)"
    "\<not> is_fired (fresh_state ''2024-03-04'') (touch_key 10)"
    by (simp_all add: quote_at_def fresh_state_unfired)
  have ev: "sent (new_events empty_world
              (snd (main sample_builtins cli (monday_poll 10.05) empty_world))) =
        [touch_alert ''10.00'']"
    using first_poll by (simp add: sample_events)
  from lowest_level_fires_alone [OF h s p(1,2)] h lvs s p ev
  show ?thesis by blast
qed

text \<open>
  Claim C3 as stated fails for a level list that is not ascending: with the configured
  levels 10.03, 10.00 in that order, none fired, and a price of 10.05, the one message of
  the poll is for 10.03, although 10.00 is a lower level that the price has reached and
  whose id has not fired.
\<close>

theorem first_listed_level_counterexample:
  "resolve_levels sample_builtins (fst (load_config cfg_args cfg_world)) (levels cfg_args)
     = [10.03, 10]
   \<and> (10 :: real) < 10.03
   \<and> 10 \<le> q_price (quote_at 10.05)
   \<and> \<not> is_fired (fresh_state ''2024-03-04'') (touch_key 10)
   \<and> reset_state (q_date (quote_at 10.05))
        (fst (load_state (state_path_of cfg_args (q_date (quote_at 10.05))) cfg_world))
      = Inr (fresh_state ''2024-03-04'')
   \<and> sent (new_events cfg_world
              (snd (main sample_builtins cfg_args (monday_poll 10.05) cfg_world))) =
        [touch_alert ''10.03'']"
  by (simp add: model_defs sample_defs world_defs cfg_args_def cfg_world_def descending_cfg_def
                new_events_def is_fired_def Let_def)

subsection \<open>The write-back of the relation\<close>

lemma relation_of_available:
  "relation_of price v = Some rel \<Longrightarrow> vwap_available v"
  by (auto simp: relation_of_def vwap_available_def split: option.splits if_splits)

lemma vwap_step_written:
  assumes en: "dict_get (p_cfg P) ''vwap_cross'' (JBool True) = Inr en" "truthy en"
    and rel: "relation_of (q_price (p_quote P)) (p_vwap P) = Some rel"
      "rel = ''above'' \<or> rel = ''below''"
    and run: "vwap_step P state w = (Inr (), w')"
  shows "\<exists>st xs. fs w' (p_path P) = Some (Doc (JObj st))
          \<and> map_of st ''vwap_rel'' = Some (JStr rel)
          \<and> trace w' = trace w @ xs @ [WriteFile (p_path P) (JObj st)]"
proof -
  let ?last = "case map_of state ''vwap_rel'' of Some v \<Rightarrow> v | None \<Rightarrow> JNull"
  have written: "\<exists>st xs. fs (save_state (p_path P) (AList.update ''vwap_rel'' (JStr rel) s) u)
                      (p_path P) = Some (Doc (JObj st))
          \<and> map_of st ''vwap_rel'' = Some (JStr rel)
          \<and> trace (save_state (p_path P) (AList.update ''vwap_rel'' (JStr rel) s) u)
              = trace w @ xs @ [WriteFile (p_path P) (JObj st)]"
    if "trace u = trace w @ ys" for s u ys
    using that by (simp add: save_state_def emit_def update_conv')
  note avail = relation_of_available [OF rel(1)]
  show ?thesis
  proof (cases "truthy ?last \<and> ?last \<noteq> JStr rel")
    case False
    with en rel avail run have
      "w' = save_state (p_path P) (AList.update ''vwap_rel'' (JStr rel) state) w"
      by (auto simp: vwap_step_def dict_get_def)
    with written [of w "[]" state] show ?thesis by simp
  next
    case cross: True
    show ?thesis
    proof (cases "dict_get (fired_of state) (cross_key rel) JNull")
      case (Inl e)
      with en rel avail run cross show ?thesis
        by (auto simp: vwap_step_def dict_get_def)
    next
      case got: (Inr v)
      show ?thesis
      proof (cases "truthy v")
        case True
        with got en rel avail run cross have
          "w' = save_state (p_path P) (AList.update ''vwap_rel'' (JStr rel) state) w"
          by (auto simp: vwap_step_def dict_get_def)
        with written [of w "[]" state] show ?thesis by simp
      next
        case False
        from got have v: "dict_get (fired_of state) (trigger_id (Cross rel)) JNull = Inr v"
          by (simp add: cross_key_def)
        from fire_unfired [OF v False, of P w, unfolded trigger_id_keys]
          got False en rel avail run cross
        have "w' = save_state (p_path P)
                     (AList.update ''vwap_rel'' (JStr rel) (state_after_fire P state (cross_key rel)))
                     (fired_world P state (Cross rel) w)"
          by (auto simp: vwap_step_def dict_get_def split: if_splits)
        moreover have "\<exists>ys. trace (fired_world P state (Cross rel) w) = trace w @ ys"
          by (simp add: fired_world_def save_state_def emit_def)
        ultimately show ?thesis using written by blast
      qed
    qed
  qed
qed

lemma vwap_step_equal:
  "relation_of (q_price (p_quote P)) (p_vwap P) = Some ''equal'' \<Longrightarrow>
   snd (vwap_step P state w) = w"
  by (simp add: vwap_step_def split: sum.splits)

lemma touch_step_continue:
  "fst (touch_step B P state w) = Inr Continue \<Longrightarrow> touch_step B P state w = (Inr Continue, w)"
  using touch_step_cases [of B P state w "fst (touch_step B P state w)" "snd (touch_step B P state w)"]
  by (cases "touch_step B P state w") (auto split: if_splits)

lemma breakdown_step_continue:
  "fst (breakdown_step B P state w) = Inr Continue \<Longrightarrow>
   breakdown_step B P state w = (Inr Continue, w)"
  using breakdown_step_cases
          [of B P state w "fst (breakdown_step B P state w)" "snd (breakdown_step B P state w)"]
  by (cases "breakdown_step B P state w") (auto split: if_splits)

text \<open>
  Claim C5, as amended. On a poll that reaches the cross step (the upside step and the
  breakdown step fell through), with the cross enabled in the configuration, an average
  available and no exception raised: when the price is above or below the average, the
  last thing the run does is to save a state that stores that relation, whether or not a
  cross fired; when the price equals the average, nothing is written and the stored
  relation stays what it was.
\<close>

theorem relation_written_back:
  assumes "is_trading_time (now_weekday E) (now_time E)"
    and "quote_response E = Inr q"
    and "reset_state (q_date q) (fst (load_state (state_path_of a (q_date q)) w)) = Inr state"
    and "P = mk_poll B a E (fst (load_config a w)) q"
    and "fst (touch_step B P state (polled_world a q w)) = Inr Continue"
    and "fst (breakdown_step B P state (polled_world a q w)) = Inr Continue"
    and "dict_get (fst (load_config a w)) ''vwap_cross'' (JBool True) = Inr en"
    and "truthy en"
    and "relation_of (q_price q) (p_vwap P) = Some rel"
    and "fst (main B a E w) = Inr ()"
  shows "(rel = ''above'' \<or> rel = ''below'' \<longrightarrow>
          (\<exists>st xs. fs (snd (main B a E w)) (state_path_of a (q_date q)) = Some (Doc (JObj st))
             \<and> map_of st ''vwap_rel'' = Some (JStr rel)
             \<and> new_events w (snd (main B a E w))
                 = xs @ [WriteFile (state_path_of a (q_date q)) (JObj st)]))
    \<and> (rel = ''equal'' \<longrightarrow> snd (main B a E w) = polled_world a q w)"
proof -
  let ?w0 = "polled_world a q w"
  have run: "main B a E w = vwap_step P state ?w0"
    using main_open_market [OF assms(1,2), of B a w] assms(3,4)
      touch_step_continue [OF assms(5)] breakdown_step_continue [OF assms(6)]
    by (simp add: evaluate_def)
  have P: "p_cfg P = fst (load_config a w)" "p_quote P = q" "p_path P = state_path_of a (q_date q)"
    using assms(4) by (simp_all add: mk_poll_fields)
  show ?thesis
  proof (intro conjI impI)
    assume side: "rel = ''above'' \<or> rel = ''below''"
    from run assms(10) have "vwap_step P state ?w0 = (Inr (), snd (main B a E w))"
      by (metis prod.collapse)
    from vwap_step_written [OF _ assms(8) _ side this] assms(7,9) P
    obtain st xs where
      st: "fs (snd (main B a E w)) (state_path_of a (q_date q)) = Some (Doc (JObj st))"
        "map_of st ''vwap_rel'' = Some (JStr rel)"
        "trace (snd (main B a E w)) = trace ?w0 @ xs @ [WriteFile (state_path_of a (q_date q)) (JObj st)]"
      by auto
    from polled_world_trace [of a q w] obtain pre where
      "trace ?w0 = trace w @ pre" by blast
    with st(3) have "new_events w (snd (main B a E w))
        = (pre @ xs) @ [WriteFile (state_path_of a (q_date q)) (JObj st)]"
      by (simp add: new_events_def)
    with st(1,2) show "\<exists>st xs. fs (snd (main B a E w)) (state_path_of a (q_date q)) = Some (Doc (JObj st))
             \<and> map_of st ''vwap_rel'' = Some (JStr rel)
             \<and> new_events w (snd (main B a E w))
                 = xs @ [WriteFile (state_path_of a (q_date q)) (JObj st)]"
      by blast
  next
    assume "rel = ''equal''"
    with assms(9) P have "relation_of (q_price (p_quote P)) (p_vwap P) = Some ''equal''" by simp
    from vwap_step_equal [OF this, of state ?w0] run
    show "snd (main B a E w) = polled_world a q w" by simp
  qed
qed

text \<open>
  Claim C5, witness: a price of 9.95 over an average of 9.9. From a stored relation
  \<open>below\<close> the cross fires and \<open>above\<close> is saved last; from a stored relation \<open>above\<close>
  nothing fires and \<open>above\<close> is saved all the same.
\<close>

theorem relation_written_back_witness:
  "is_trading_time (now_weekday (monday_poll 9.95)) (now_time (monday_poll 9.95))
   \<and> quote_response (monday_poll 9.95) = Inr (quote_at 9.95)
   \<and> reset_state (q_date (quote_at 9.95))
        (fst (load_state (state_path_of cli (q_date (quote_at 9.95))) below_world))
      = Inr below_state
   \<and> fst (touch_step sample_builtins
            (mk_poll sample_builtins cli (monday_poll 9.95) (fst (load_config cli below_world))
               (quote_at 9.95))
            below_state (polled_world cli (quote_at 9.95) below_world)) = Inr Continue
   \<and> fst (breakdown_step sample_builtins
            (mk_poll sample_builtins cli (monday_poll 9.95) (fst (load_config cli below_world))
               (quote_at 9.95))
            below_state (polled_world cli (quote_at 9.95) below_world)) = Inr Continue
   \<and> dict_get (fst (load_config cli below_world)) ''vwap_cross'' (JBool True) = Inr (JBool True)
   \<and> truthy (JBool True)
   \<and> relation_of (q_price (quote_at 9.95))
        (p_vwap (mk_poll sample_builtins cli (monday_poll 9.95)
                   (fst (load_config cli below_world)) (quote_at 9.95))) = Some ''above''
   \<and> fst (main sample_builtins cli (monday_poll 9.95) below_world) = Inr ()
   \<and> (\<exists>st xs. fs (snd (main sample_builtins cli (monday_poll 9.95) below_world))
                 (state_path_of cli (q_date (quote_at 9.95))) = Some (Doc (JObj st))
         \<and> map_of st ''vwap_rel'' = Some (JStr ''above'')
         \<and> new_events below_world (snd (main sample_builtins cli (monday_poll 9.95) below_world))
             = xs @ [WriteFile (state_path_of cli (q_date (quote_at 9.95))) (JObj st)])
   \<and> map m_kind (sent (new_events below_world
                         (snd (main sample_builtins cli (monday_poll 9.95) below_world))))
       = [Cross ''above'']
   \<and> sent (new_events above_world
              (snd (main sample_builtins cli (monday_poll 9.95) above_world))) = []
   \<and> (\<exists>st xs. fs (snd (main sample_builtins cli (monday_poll 9.95) above_world))
                 (state_path_of cli (q_date (quote_at 9.95))) = Some (Doc (JObj st))
         \<and> map_of st ''vwap_rel'' = Some (JStr ''above'')
         \<and> new_events above_world (snd (main sample_builtins cli (monday_poll 9.95) above_world))
             = xs @ [WriteFile (state_path_of cli (q_date (quote_at 9.95))) (JObj st)])"
proof -
  let ?P = "\<lambda>w. mk_poll sample_builtins cli (monday_poll 9.95) (fst (load_config cli w))
                  (quote_at 9.95)"
  have h: "is_trading_time (now_weekday (monday_poll 9.95)) (now_time (monday_poll 9.95))"
    "quote_response (monday_poll 9.95) = Inr (quote_at 9.95)"
    by (simp_all add: model_defs sample_defs)
  have en: "truthy (JBool True)" by simp
  have below: "reset_state (q_date (quote_at 9.95))
        (fst (load_state (state_path_of cli (q_date (quote_at 9.95))) below_world))
      = Inr below_state"
    "fst (touch_step sample_builtins (?P below_world) below_state
            (polled_world cli (quote_at 9.95) below_world)) = Inr Continue"
    "fst (breakdown_step sample_builtins (?P below_world) below_state
            (polled_world cli (quote_at 9.95) below_world)) = Inr Continue"
    "dict_get (fst (load_config cli below_world)) ''vwap_cross'' (JBool True) = Inr (JBool True)"
    "relation_of (q_price (quote_at 9.95)) (p_vwap (?P below_world)) = Some ''above''"
    "fst (main sample_builtins cli (monday_poll 9.95) below_world) = Inr ()"
    "map m_kind (sent (new_events below_world
                         (snd (main sample_builtins cli (monday_poll 9.95) below_world))))
       = [Cross ''above'']"
    by (simp_all add: model_defs sample_defs world_defs relation_defs polled_world_def
                      new_events_def first_touch.simps Let_def)
  have above: "reset_state (q_date (quote_at 9.95))
        (fst (load_state (state_path_of cli (q_date (quote_at 9.95))) above_world))
      = Inr above_state"
    "fst (touch_step sample_builtins (?P above_world) above_state
            (polled_world cli (quote_at 9.95) above_world)) = Inr Continue"
    "fst (breakdown_step sample_builtins (?P above_world) above_state
            (polled_world cli (quote_at 9.95) above_world)) = Inr Continue"
    "dict_get (fst (load_config cli above_world)) ''vwap_cross'' (JBool True) = Inr (JBool True)"
    "relation_of (q_price (quote_at 9.95)) (p_vwap (?P above_world)) = Some ''above''"
    "fst (main sample_builtins cli (monday_poll 9.95) above_world) = Inr ()"
    "sent (new_events above_world
              (snd (main sample_builtins cli (monday_poll 9.95) above_world))) = []"
    by (simp_all add: model_defs sample_defs world_defs relation_defs polled_world_def
                      new_events_def first_touch.simps Let_def)
  from relation_written_back [OF h below(1) refl below(2,3,4) en below(5,6)]
       relation_written_back [OF h above(1) refl above(2,3,4) en above(5,6)]
       h en below above
  show ?thesis by blast
qed

text \<open>
  Claim C5 as stated fails when the price equals the average: with the cross enabled
  (the default), an average of 9.9 and a price of 9.9, the relation is \<open>equal\<close>, and the
  run writes no file; the state file keeps the relation \<open>below\<close> it stored before.
\<close>

theorem equal_relation_not_written_counterexample:
  "compute_vwap sample_builtins (kline_response (monday_poll 9.9)) ''2024-03-04'' = Inr (Some 9.9)
   \<and> dict_get (fst (load_config cli below_world)) ''vwap_cross'' (JBool True) = Inr (JBool True)
   \<and> relation_of (q_price (quote_at 9.9)) (Some 9.9) = Some ''equal''
   \<and> fs below_world state_file = Some (Doc (JObj below_state))
   \<and> map_of below_state ''vwap_rel'' = Some (JStr ''below'')
   \<and> main sample_builtins cli (monday_poll 9.9) below_world =
       (Inr (),
        below_world\<lparr>trace := [HttpQuote ''sh600158'', ReadFile state_file, HttpKline ''sh600158'']\<rparr>)"
  by (simp add: model_defs sample_defs world_defs relation_defs Let_def)


end
